theory Spec2Isabelle
  imports Main "HOL-Library.AList"
begin

section \<open>Pointers, pointees and the object store\<close>

text \<open>
  Modelled from the spec: the storage strategy \<open>PtrTraits\<close> (its header is not among the
  sources). A slot holds null, the reserved hash-table-deleted encoding, or the address
  of a pointee; the deleted encoding is a non-null pointer value at which no pointee
  lives. \<open>unwrap\<close> reads the raw pointer out of the storage, \<open>exchange\<close> stores a new
  value and hands back the old one, \<open>swap\<close> exchanges two slots.
\<close>

datatype ptr = Nullptr | DeletedValue | Addr nat

definition PtrTraits_unwrap :: "ptr \<Rightarrow> ptr" where
  "PtrTraits_unwrap m = m"

definition PtrTraits_hashTableDeletedValue :: ptr where
  "PtrTraits_hashTableDeletedValue = DeletedValue"

definition PtrTraits_isHashTableDeletedValue :: "ptr \<Rightarrow> bool" where
  "PtrTraits_isHashTableDeletedValue m = (m = PtrTraits_hashTableDeletedValue)"

text \<open>What went wrong when an operation does not return normally.\<close>

datatype error =
    AssertionFailure    \<comment> \<open>an enabled ASSERT found its condition false\<close>
  | NullDereference     \<comment> \<open>undefined behaviour: \<open>*p\<close> with \<open>p\<close> null\<close>
  | InvalidPointee      \<comment> \<open>undefined behaviour: a count adjusted where no pointee lives\<close>
  | OutsideLifetime     \<comment> \<open>a checked pointer or reference named that is not alive\<close>
  | StorageInUse        \<comment> \<open>a declaration at the identity of a live object\<close>

text \<open>
  Every adjustment of a pointee's count is recorded, with the value the count takes,
  so that the order of adjustments within one operation can be stated.
\<close>

datatype event = Incremented nat int | Decremented nat int

text \<open>
  The store: the live \<open>CheckedPtr\<close> objects and the live \<open>CheckedRef\<close> objects, each by
  identity with the content of its \<open>m_ptr\<close>; the live pointees by address with their
  outstanding count; and the record of count adjustments.
\<close>

record store =
  ptrs :: "(nat \<times> ptr) list"
  refs :: "(nat \<times> ptr) list"
  heap :: "nat \<Rightarrow> int option"
  log :: "event list"

definition m_ptr :: "store \<Rightarrow> nat \<Rightarrow> ptr option" where
  "m_ptr s this = map_of (ptrs s) this"

definition set_m_ptr :: "nat \<Rightarrow> ptr \<Rightarrow> store \<Rightarrow> store" where
  "set_m_ptr this v s = s\<lparr>ptrs := AList.update this v (ptrs s)\<rparr>"

text \<open>\<open>PtrTraits::exchange(other.m_ptr, v)\<close>: the old content and the store after.\<close>

definition PtrTraits_exchange :: "nat \<Rightarrow> ptr \<Rightarrow> store \<Rightarrow> error + (ptr \<times> store)" where
  "PtrTraits_exchange other v s =
     (case m_ptr s other of
        None \<Rightarrow> Inl OutsideLifetime
      | Some old \<Rightarrow> Inr (old, set_m_ptr other v s))"

text \<open>\<open>PtrTraits::swap(a.m_ptr, b.m_ptr)\<close>.\<close>

definition PtrTraits_swap :: "nat \<Rightarrow> nat \<Rightarrow> store \<Rightarrow> error + store" where
  "PtrTraits_swap a b s =
     (case m_ptr s a of
        None \<Rightarrow> Inl OutsideLifetime
      | Some x \<Rightarrow>
          (case m_ptr s b of
             None \<Rightarrow> Inl OutsideLifetime
           | Some y \<Rightarrow> Inr (set_m_ptr b x (set_m_ptr a y s))))"

text \<open>
  A local object of a function body lives at an identity no live checked pointer has.
\<close>

definition local_slot :: "store \<Rightarrow> nat" where
  "local_slot s = Suc (fold max (map fst (ptrs s)) 0)"

text \<open>
  Modelled from the spec: the counted-target contract of the pointee (declared in
  CheckedRef.h, which is not among the sources): an integer count of outstanding
  checked references, adjusted by one per call. Calling it through a pointer at
  which no pointee lives is undefined behaviour.
\<close>

definition incrementPtrCount :: "ptr \<Rightarrow> store \<Rightarrow> error + store" where
  "incrementPtrCount p s =
     (case p of
        Nullptr \<Rightarrow> Inl NullDereference
      | DeletedValue \<Rightarrow> Inl InvalidPointee
      | Addr a \<Rightarrow>
          (case heap s a of
             None \<Rightarrow> Inl InvalidPointee
           | Some c \<Rightarrow>
               Inr (s\<lparr>heap := (heap s)(a \<mapsto> c + 1),
                      log := log s @ [Incremented a (c + 1)]\<rparr>)))"

definition decrementPtrCount :: "ptr \<Rightarrow> store \<Rightarrow> error + store" where
  "decrementPtrCount p s =
     (case p of
        Nullptr \<Rightarrow> Inl NullDereference
      | DeletedValue \<Rightarrow> Inl InvalidPointee
      | Addr a \<Rightarrow>
          (case heap s a of
             None \<Rightarrow> Inl InvalidPointee
           | Some c \<Rightarrow>
               Inr (s\<lparr>heap := (heap s)(a \<mapsto> c - 1),
                      log := log s @ [Decremented a (c - 1)]\<rparr>)))"

text \<open>
  Modelled from the spec: the \<open>ASSERT\<close> macro (not among the sources), a debug-only
  assertion: it checks its condition in a build with assertions enabled and is
  compiled out otherwise. The flag \<open>dbg\<close> says which build runs.
\<close>

definition ASSERT :: "bool \<Rightarrow> bool \<Rightarrow> error + unit" where
  "ASSERT dbg c = (if dbg \<and> \<not> c then Inl AssertionFailure else Inr ())"

section \<open>CheckedPtr\<close>

text \<open>
  The member functions of \<open>CheckedPtr\<close>, for a build without the debug registry
  (\<open>CHECKED_POINTER_DEBUG\<close> off, where \<open>unregisterCheckedPtrIfNecessary\<close> is empty).
  \<open>this\<close> and \<open>other\<close> are object identities; template parameters are erased, so a
  converting overload is the same function as the one it converts to.
\<close>

definition refIfNotNull :: "nat \<Rightarrow> store \<Rightarrow> error + store" where
  "refIfNotNull this s =
     (case m_ptr s this of
        None \<Rightarrow> Inl OutsideLifetime
      | Some m \<Rightarrow>
          (if PtrTraits_unwrap m \<noteq> Nullptr
           then incrementPtrCount (PtrTraits_unwrap m) s
           else Inr s))"

definition derefIfNotNull :: "nat \<Rightarrow> store \<Rightarrow> error + store" where
  "derefIfNotNull this s =
     (case m_ptr s this of
        None \<Rightarrow> Inl OutsideLifetime
      | Some m \<Rightarrow>
          (if PtrTraits_unwrap m \<noteq> Nullptr
           then decrementPtrCount (PtrTraits_unwrap m) s
           else Inr s))"

subsection \<open>Observers\<close>

definition get :: "nat \<Rightarrow> store \<Rightarrow> error + (ptr \<times> store)" where
  "get this s =
     (case m_ptr s this of
        None \<Rightarrow> Inl OutsideLifetime
      | Some m \<Rightarrow> Inr (PtrTraits_unwrap m, s))"

definition isHashTableDeletedValue :: "nat \<Rightarrow> store \<Rightarrow> error + (bool \<times> store)" where
  "isHashTableDeletedValue this s =
     (case m_ptr s this of
        None \<Rightarrow> Inl OutsideLifetime
      | Some m \<Rightarrow> Inr (PtrTraits_isHashTableDeletedValue m, s))"

text \<open>
  The implicit conversion yields a pointer to a private member function: either null
  or the address of \<open>unspecifiedBoolTypeInstance\<close>. Such a value is tested in a
  condition (non-null is true) and is not a number.
\<close>

datatype UnspecifiedBoolType = NullMemberPointer | UnspecifiedBoolTypeInstance

definition contextually_true :: "UnspecifiedBoolType \<Rightarrow> bool" where
  "contextually_true f = (f \<noteq> NullMemberPointer)"

definition operator_UnspecifiedBoolType ::
    "nat \<Rightarrow> store \<Rightarrow> error + (UnspecifiedBoolType \<times> store)" where
  "operator_UnspecifiedBoolType this s =
     (case m_ptr s this of
        None \<Rightarrow> Inl OutsideLifetime
      | Some m \<Rightarrow>
          Inr (if m \<noteq> Nullptr then UnspecifiedBoolTypeInstance else NullMemberPointer, s))"

definition operator_bool :: "nat \<Rightarrow> store \<Rightarrow> error + (bool \<times> store)" where
  "operator_bool this s =
     (case m_ptr s this of
        None \<Rightarrow> Inl OutsideLifetime
      | Some m \<Rightarrow> Inr (PtrTraits_unwrap m \<noteq> Nullptr, s))"

text \<open>
  \<open>operator*\<close> yields a reference, represented by the address it is bound to; going
  through a null pointer is undefined behaviour. \<open>operator->\<close> is \<open>get\<close>.
\<close>

definition operator_star :: "bool \<Rightarrow> nat \<Rightarrow> store \<Rightarrow> error + (ptr \<times> store)" where
  "operator_star dbg this s =
     (case m_ptr s this of
        None \<Rightarrow> Inl OutsideLifetime
      | Some m \<Rightarrow>
          (case ASSERT dbg (m \<noteq> Nullptr) of
             Inl e \<Rightarrow> Inl e
           | Inr _ \<Rightarrow>
               (case get this s of
                  Inl e \<Rightarrow> Inl e
                | Inr (p, s1) \<Rightarrow> if p = Nullptr then Inl NullDereference else Inr (p, s1))))"

definition operator_arrow :: "nat \<Rightarrow> store \<Rightarrow> error + (ptr \<times> store)" where
  "operator_arrow this s = get this s"

text \<open>Equality with a raw pointer and with another checked pointer.\<close>

definition operator_eq_raw :: "nat \<Rightarrow> ptr \<Rightarrow> store \<Rightarrow> error + (bool \<times> store)" where
  "operator_eq_raw this other s =
     (case m_ptr s this of
        None \<Rightarrow> Inl OutsideLifetime
      | Some m \<Rightarrow> Inr (m = other, s))"

definition operator_eq :: "nat \<Rightarrow> nat \<Rightarrow> store \<Rightarrow> error + (bool \<times> store)" where
  "operator_eq this other s =
     (case m_ptr s this of
        None \<Rightarrow> Inl OutsideLifetime
      | Some m \<Rightarrow>
          (case m_ptr s other of
             None \<Rightarrow> Inl OutsideLifetime
           | Some om \<Rightarrow> Inr (m = om, s)))"

subsection \<open>Constructors and destructor\<close>

text \<open>
  A constructor runs on the storage \<open>this\<close> and makes it a live object. \<open>CheckedPtr()\<close>
  and \<open>CheckedPtr(nullptr)\<close> store null and cannot fail.
\<close>

definition CheckedPtr_default :: "nat \<Rightarrow> store \<Rightarrow> store" where
  "CheckedPtr_default this s = set_m_ptr this Nullptr s"

definition CheckedPtr_nullptr :: "nat \<Rightarrow> store \<Rightarrow> store" where
  "CheckedPtr_nullptr this s = set_m_ptr this Nullptr s"

text \<open>\<open>CheckedPtr(T* ptr)\<close>\<close>

definition CheckedPtr_raw :: "nat \<Rightarrow> ptr \<Rightarrow> store \<Rightarrow> error + store" where
  "CheckedPtr_raw this p s = refIfNotNull this (set_m_ptr this p s)"

text \<open>\<open>CheckedPtr(const CheckedPtr& other)\<close>\<close>

definition CheckedPtr_copy :: "nat \<Rightarrow> nat \<Rightarrow> store \<Rightarrow> error + store" where
  "CheckedPtr_copy this other s =
     (case m_ptr s other of
        None \<Rightarrow> Inl OutsideLifetime
      | Some om \<Rightarrow> refIfNotNull this (set_m_ptr this om s))"

text \<open>\<open>CheckedPtr(CheckedPtr&& other)\<close>, also the converting one.\<close>

definition CheckedPtr_move :: "nat \<Rightarrow> nat \<Rightarrow> store \<Rightarrow> error + store" where
  "CheckedPtr_move this other s =
     (case PtrTraits_exchange other Nullptr s of
        Inl e \<Rightarrow> Inl e
      | Inr (old, s1) \<Rightarrow> Inr (set_m_ptr this old s1))"

text \<open>
  \<open>CheckedPtr(const CheckedPtr<OtherType, OtherPtrTraits>& other)\<close> delegates to the
  constructor from a raw pointer.
\<close>

definition CheckedPtr_converting_copy :: "nat \<Rightarrow> nat \<Rightarrow> store \<Rightarrow> error + store" where
  "CheckedPtr_converting_copy this other s =
     (case m_ptr s other of
        None \<Rightarrow> Inl OutsideLifetime
      | Some om \<Rightarrow> CheckedPtr_raw this (PtrTraits_unwrap om) s)"

text \<open>\<open>CheckedPtr(HashTableDeletedValueType)\<close>\<close>

definition CheckedPtr_HashTableDeletedValue :: "nat \<Rightarrow> store \<Rightarrow> store" where
  "CheckedPtr_HashTableDeletedValue this s = set_m_ptr this PtrTraits_hashTableDeletedValue s"

text \<open>\<open>~CheckedPtr()\<close>: after the body has run the object is no longer alive.\<close>

definition destroy_CheckedPtr :: "nat \<Rightarrow> store \<Rightarrow> error + store" where
  "destroy_CheckedPtr this s =
     (case derefIfNotNull this s of
        Inl e \<Rightarrow> Inl e
      | Inr s1 \<Rightarrow> Inr (s1\<lparr>ptrs := AList.delete this (ptrs s1)\<rparr>))"

subsection \<open>CheckedRef\<close>

text \<open>
  Modelled from the spec: the checked reference (CheckedRef.h is not among the
  sources). Constructing one from a pointee increments the count and has the
  precondition that the pointer is not null; the adopting constructor takes over an
  increment that exists and does not increment; release detaches and returns the raw
  pointer without decrementing; destruction decrements unless the pointer was released.
\<close>

definition ref_ptr :: "store \<Rightarrow> nat \<Rightarrow> ptr option" where
  "ref_ptr s r = map_of (refs s) r"

definition set_ref_ptr :: "nat \<Rightarrow> ptr \<Rightarrow> store \<Rightarrow> store" where
  "set_ref_ptr r v s = s\<lparr>refs := AList.update r v (refs s)\<rparr>"

definition CheckedRef_raw :: "bool \<Rightarrow> nat \<Rightarrow> ptr \<Rightarrow> store \<Rightarrow> error + store" where
  "CheckedRef_raw dbg r p s =
     (case ASSERT dbg (p \<noteq> Nullptr) of
        Inl e \<Rightarrow> Inl e
      | Inr _ \<Rightarrow>
          (case incrementPtrCount p s of
             Inl e \<Rightarrow> Inl e
           | Inr s1 \<Rightarrow> Inr (set_ref_ptr r p s1)))"

definition CheckedRef_adopt :: "nat \<Rightarrow> ptr \<Rightarrow> store \<Rightarrow> store" where
  "CheckedRef_adopt r p s = set_ref_ptr r p s"

definition releasePtr :: "nat \<Rightarrow> store \<Rightarrow> error + (ptr \<times> store)" where
  "releasePtr r s =
     (case ref_ptr s r of
        None \<Rightarrow> Inl OutsideLifetime
      | Some p \<Rightarrow> Inr (p, set_ref_ptr r Nullptr s))"

definition destroy_CheckedRef :: "nat \<Rightarrow> store \<Rightarrow> error + store" where
  "destroy_CheckedRef r s =
     (case ref_ptr s r of
        None \<Rightarrow> Inl OutsideLifetime
      | Some p \<Rightarrow>
          (case (if p \<noteq> Nullptr then decrementPtrCount p s else Inr s) of
             Inl e \<Rightarrow> Inl e
           | Inr s1 \<Rightarrow> Inr (s1\<lparr>refs := AList.delete r (refs s1)\<rparr>)))"

text \<open>
  \<open>CheckedPtr(CheckedRef<T, PtrTraits>& other)\<close> and the converting one from a const
  reference delegate to the constructor from a raw pointer.
\<close>

definition CheckedPtr_from_CheckedRef :: "nat \<Rightarrow> nat \<Rightarrow> store \<Rightarrow> error + store" where
  "CheckedPtr_from_CheckedRef this other s =
     (case ref_ptr s other of
        None \<Rightarrow> Inl OutsideLifetime
      | Some p \<Rightarrow> CheckedPtr_raw this (PtrTraits_unwrap p) s)"

text \<open>\<open>CheckedPtr(CheckedRef<T, PtrTraits>&& other)\<close>, also the converting one.\<close>

definition CheckedPtr_adopt_CheckedRef :: "bool \<Rightarrow> nat \<Rightarrow> nat \<Rightarrow> store \<Rightarrow> error + store" where
  "CheckedPtr_adopt_CheckedRef dbg this other s =
     (case releasePtr other s of
        Inl e \<Rightarrow> Inl e
      | Inr (p, s1) \<Rightarrow>
          (let s2 = set_m_ptr this p s1 in
           case get this s2 of
             Inl e \<Rightarrow> Inl e
           | Inr (g, s3) \<Rightarrow>
               (case ASSERT dbg (g \<noteq> Nullptr) of
                  Inl e \<Rightarrow> Inl e
                | Inr _ \<Rightarrow> Inr s3)))"

text \<open>
  \<open>releaseNonNull()\<close>; the returned \<open>CheckedRef\<close> is constructed, adopting, in the
  caller's storage \<open>result\<close>.
\<close>

definition releaseNonNull :: "bool \<Rightarrow> nat \<Rightarrow> nat \<Rightarrow> store \<Rightarrow> error + store" where
  "releaseNonNull dbg this result s =
     (case m_ptr s this of
        None \<Rightarrow> Inl OutsideLifetime
      | Some m \<Rightarrow>
          (case ASSERT dbg (m \<noteq> Nullptr) of
             Inl e \<Rightarrow> Inl e
           | Inr _ \<Rightarrow>
               (let old = m; s1 = set_m_ptr this Nullptr s in
                if PtrTraits_unwrap old = Nullptr then Inl NullDereference
                else Inr (CheckedRef_adopt result (PtrTraits_unwrap old) s1))))"

subsection \<open>Assignment\<close>

text \<open>\<open>operator=(std::nullptr_t)\<close>\<close>

definition operator_assign_nullptr :: "nat \<Rightarrow> store \<Rightarrow> error + store" where
  "operator_assign_nullptr this s =
     (case derefIfNotNull this s of
        Inl e \<Rightarrow> Inl e
      | Inr s1 \<Rightarrow> Inr (set_m_ptr this Nullptr s1))"

text \<open>\<open>operator=(T* ptr)\<close>: the local \<open>copy\<close> is destroyed when the body is left.\<close>

definition operator_assign_raw :: "nat \<Rightarrow> ptr \<Rightarrow> store \<Rightarrow> error + store" where
  "operator_assign_raw this p s =
     (let copy = local_slot s in
      case CheckedPtr_raw copy p s of
        Inl e \<Rightarrow> Inl e
      | Inr s1 \<Rightarrow>
          (case PtrTraits_swap this copy s1 of
             Inl e \<Rightarrow> Inl e
           | Inr s2 \<Rightarrow> destroy_CheckedPtr copy s2))"

text \<open>\<open>operator=(const CheckedPtr& other)\<close>\<close>

definition operator_assign_copy :: "nat \<Rightarrow> nat \<Rightarrow> store \<Rightarrow> error + store" where
  "operator_assign_copy this other s =
     (let copy = local_slot s in
      case CheckedPtr_copy copy other s of
        Inl e \<Rightarrow> Inl e
      | Inr s1 \<Rightarrow>
          (case PtrTraits_swap this copy s1 of
             Inl e \<Rightarrow> Inl e
           | Inr s2 \<Rightarrow> destroy_CheckedPtr copy s2))"

text \<open>\<open>operator=(const CheckedPtr<OtherType, OtherPtrTraits>& other)\<close>\<close>

definition operator_assign_converting_copy :: "nat \<Rightarrow> nat \<Rightarrow> store \<Rightarrow> error + store" where
  "operator_assign_converting_copy this other s =
     (let copy = local_slot s in
      case CheckedPtr_converting_copy copy other s of
        Inl e \<Rightarrow> Inl e
      | Inr s1 \<Rightarrow>
          (case PtrTraits_swap this copy s1 of
             Inl e \<Rightarrow> Inl e
           | Inr s2 \<Rightarrow> destroy_CheckedPtr copy s2))"

text \<open>\<open>operator=(CheckedPtr&& other)\<close>, also the converting one.\<close>

definition operator_assign_move :: "nat \<Rightarrow> nat \<Rightarrow> store \<Rightarrow> error + store" where
  "operator_assign_move this other s =
     (let moved = local_slot s in
      case CheckedPtr_move moved other s of
        Inl e \<Rightarrow> Inl e
      | Inr s1 \<Rightarrow>
          (case PtrTraits_swap this moved s1 of
             Inl e \<Rightarrow> Inl e
           | Inr s2 \<Rightarrow> destroy_CheckedPtr moved s2))"

subsection \<open>Hash traits\<close>

definition emptyValue :: ptr where
  "emptyValue = Nullptr"

text \<open>
  Modelled from the spec: \<open>SimpleClassHashTraits\<close> (not among the sources), whose
  \<open>isDeletedValue\<close> asks the value with \<open>isHashTableDeletedValue\<close> and whose
  \<open>constructDeletedValue\<close> constructs the deleted value in the storage of the bucket,
  without destroying what was there.
\<close>

definition isDeletedValue :: "nat \<Rightarrow> store \<Rightarrow> error + (bool \<times> store)" where
  "isDeletedValue val s = isHashTableDeletedValue val s"

definition constructDeletedValue :: "nat \<Rightarrow> store \<Rightarrow> store" where
  "constructDeletedValue val s = CheckedPtr_HashTableDeletedValue val s"

text \<open>
  \<open>customDeleteBucket\<close>. Its statements: the assertion, the move of the bucket into the
  local \<open>valueToBeDestroyed\<close>, and the construction of the deleted value in the
  bucket. The local is destroyed when the body is left, after the last statement.
\<close>

definition customDeleteBucket_statements :: "bool \<Rightarrow> nat \<Rightarrow> store \<Rightarrow> error + store" where
  "customDeleteBucket_statements dbg val s =
     (case isDeletedValue val s of
        Inl e \<Rightarrow> Inl e
      | Inr (d, s0) \<Rightarrow>
          (case ASSERT dbg (\<not> d) of
             Inl e \<Rightarrow> Inl e
           | Inr _ \<Rightarrow>
               (let valueToBeDestroyed = local_slot s in
                case CheckedPtr_move valueToBeDestroyed val s0 of
                  Inl e \<Rightarrow> Inl e
                | Inr s1 \<Rightarrow> Inr (constructDeletedValue val s1))))"

definition customDeleteBucket :: "bool \<Rightarrow> nat \<Rightarrow> store \<Rightarrow> error + store" where
  "customDeleteBucket dbg val s =
     (case customDeleteBucket_statements dbg val s of
        Inl e \<Rightarrow> Inl e
      | Inr s2 \<Rightarrow> destroy_CheckedPtr (local_slot s) s2)"

section \<open>Programs over checked pointers\<close>

text \<open>
  The statements a client can write: declarations of checked pointers with each
  constructor, assignments, release, the end of an object's lifetime, and the
  declaration and destruction of checked references. A declaration names storage
  that holds no live object, and an assignment is to a live object.
\<close>

datatype op =
    Construct_default nat
  | Construct_raw nat ptr
  | Construct_copy nat nat
  | Construct_converting_copy nat nat
  | Construct_move nat nat
  | Construct_from_ref nat nat
  | Construct_adopt_ref nat nat
  | Assign_nullptr nat
  | Assign_raw nat ptr
  | Assign_copy nat nat
  | Assign_converting_copy nat nat
  | Assign_move nat nat
  | Release_non_null nat nat
  | Destroy nat
  | Ref_construct nat ptr
  | Ref_destroy nat

fun step :: "bool \<Rightarrow> op \<Rightarrow> store \<Rightarrow> error + store" where
  "step dbg (Construct_default this) s =
     (if m_ptr s this = None then Inr (CheckedPtr_default this s) else Inl StorageInUse)"
| "step dbg (Construct_raw this p) s =
     (if m_ptr s this = None then CheckedPtr_raw this p s else Inl StorageInUse)"
| "step dbg (Construct_copy this other) s =
     (if m_ptr s this = None then CheckedPtr_copy this other s else Inl StorageInUse)"
| "step dbg (Construct_converting_copy this other) s =
     (if m_ptr s this = None then CheckedPtr_converting_copy this other s else Inl StorageInUse)"
| "step dbg (Construct_move this other) s =
     (if m_ptr s this = None then CheckedPtr_move this other s else Inl StorageInUse)"
| "step dbg (Construct_from_ref this r) s =
     (if m_ptr s this = None then CheckedPtr_from_CheckedRef this r s else Inl StorageInUse)"
| "step dbg (Construct_adopt_ref this r) s =
     (if m_ptr s this = None then CheckedPtr_adopt_CheckedRef dbg this r s else Inl StorageInUse)"
| "step dbg (Assign_nullptr this) s =
     (if m_ptr s this = None then Inl OutsideLifetime else operator_assign_nullptr this s)"
| "step dbg (Assign_raw this p) s =
     (if m_ptr s this = None then Inl OutsideLifetime else operator_assign_raw this p s)"
| "step dbg (Assign_copy this other) s =
     (if m_ptr s this = None then Inl OutsideLifetime else operator_assign_copy this other s)"
| "step dbg (Assign_converting_copy this other) s =
     (if m_ptr s this = None then Inl OutsideLifetime
      else operator_assign_converting_copy this other s)"
| "step dbg (Assign_move this other) s =
     (if m_ptr s this = None then Inl OutsideLifetime else operator_assign_move this other s)"
| "step dbg (Release_non_null this r) s =
     (if ref_ptr s r = None then releaseNonNull dbg this r s else Inl StorageInUse)"
| "step dbg (Destroy this) s = destroy_CheckedPtr this s"
| "step dbg (Ref_construct r p) s =
     (if ref_ptr s r = None then CheckedRef_raw dbg r p s else Inl StorageInUse)"
| "step dbg (Ref_destroy r) s = destroy_CheckedRef r s"

fun run :: "bool \<Rightarrow> op list \<Rightarrow> store \<Rightarrow> error + store" where
  "run dbg [] s = Inr s"
| "run dbg (x # xs) s = (case step dbg x s of Inl e \<Rightarrow> Inl e | Inr s1 \<Rightarrow> run dbg xs s1)"

text \<open>Before the program starts: the given pointees, no checked pointer or reference.\<close>

definition initial :: "nat list \<Rightarrow> store" where
  "initial pointees =
     \<lparr>ptrs = [], refs = [],
      heap = (\<lambda>a. if a \<in> set pointees then Some 0 else None),
      log = []\<rparr>"

text \<open>The number of entries of an object table that hold the pointer \<open>x\<close>.\<close>

definition targeting :: "ptr \<Rightarrow> (nat \<times> ptr) list \<Rightarrow> int" where
  "targeting x al = int (length (filter (\<lambda>(i, p). p = x) al))"

text \<open>The number of live checked pointers and references that target the pointee at \<open>a\<close>.\<close>

definition live_count :: "nat \<Rightarrow> store \<Rightarrow> int" where
  "live_count a s = targeting (Addr a) (ptrs s) + targeting (Addr a) (refs s)"

text \<open>
  The invariant of the store: no identity is listed twice, and every pointee's count
  is the number of live checked pointers and references targeting it.
\<close>

definition counted :: "store \<Rightarrow> bool" where
  "counted s \<longleftrightarrow>
     distinct (map fst (ptrs s)) \<and> distinct (map fst (refs s)) \<and>
     (\<forall>a c. heap s a = Some c \<longrightarrow> c = live_count a s)"

section \<open>Auxiliary notions\<close>

text \<open>
  What \<open>refIfNotNull\<close> and \<open>derefIfNotNull\<close> do to the counts when the slot holds
  \<open>m\<close>, and the sequencing of two fallible steps.
\<close>

definition ref_value :: "ptr \<Rightarrow> store \<Rightarrow> error + store" where
  "ref_value m s =
     (if PtrTraits_unwrap m \<noteq> Nullptr then incrementPtrCount (PtrTraits_unwrap m) s else Inr s)"

definition deref_value :: "ptr \<Rightarrow> store \<Rightarrow> error + store" where
  "deref_value m s =
     (if PtrTraits_unwrap m \<noteq> Nullptr then decrementPtrCount (PtrTraits_unwrap m) s else Inr s)"

definition and_then :: "error + 'a \<Rightarrow> ('a \<Rightarrow> error + 'b) \<Rightarrow> error + 'b" where
  "and_then r f = (case r of Inl e \<Rightarrow> Inl e | Inr x \<Rightarrow> f x)"

text \<open>
  The assignment procedure in the words of the specification: construct a temporary
  replacement value, exchange it with the current slot, and let the destruction of
  the temporary release the old value.
\<close>

definition assign_by_temporary ::
    "(nat \<Rightarrow> store \<Rightarrow> error + store) \<Rightarrow> nat \<Rightarrow> store \<Rightarrow> error + store" where
  "assign_by_temporary construct this s =
     (let temporary = local_slot s in
      and_then (construct temporary s) (\<lambda>s1.
      and_then (PtrTraits_swap this temporary s1) (\<lambda>s2.
      destroy_CheckedPtr temporary s2)))"

text \<open>
  The first two steps of that procedure: the store in which the temporary, still
  alive, is about to be destroyed.
\<close>

definition exchange_with_temporary ::
    "(nat \<Rightarrow> store \<Rightarrow> error + store) \<Rightarrow> nat \<Rightarrow> store \<Rightarrow> error + store" where
  "exchange_with_temporary construct this s =
     (let temporary = local_slot s in
      and_then (construct temporary s) (\<lambda>s1. PtrTraits_swap this temporary s1))"

text \<open>
  Reading the record of adjustments: whether an entry is an increment, whose count it
  adjusts and the value the count takes; whether no increment comes after a
  decrement; and the values the count of \<open>a\<close> takes in turn.
\<close>

fun is_increment :: "event \<Rightarrow> bool" where
  "is_increment (Incremented a c) = True"
| "is_increment (Decremented a c) = False"

fun event_pointee :: "event \<Rightarrow> nat" where
  "event_pointee (Incremented a c) = a"
| "event_pointee (Decremented a c) = a"

fun event_count :: "event \<Rightarrow> int" where
  "event_count (Incremented a c) = c"
| "event_count (Decremented a c) = c"

fun increments_first :: "event list \<Rightarrow> bool" where
  "increments_first [] = True"
| "increments_first (e # es) =
     (if is_increment e then increments_first es else list_all (\<lambda>x. \<not> is_increment x) es)"

definition counts_taken :: "nat \<Rightarrow> event list \<Rightarrow> int list" where
  "counts_taken a es = map event_count (filter (\<lambda>e. event_pointee e = a) es)"

section \<open>Auxiliary facts\<close>

subsection \<open>Local objects\<close>

lemma fold_max_ge: "b \<le> fold max xs (b::nat)"
  by (induction xs arbitrary: b) (auto intro: order_trans[OF max.cobounded2])

lemma fold_max_mem: "k \<in> set xs \<Longrightarrow> k \<le> fold max xs (b::nat)"
proof (induction xs arbitrary: b)
  case Nil then show ?case by simp
next
  case (Cons x xs)
  show ?case
  proof (cases "k = x")
    case True
    have "max x b \<le> fold max xs (max x b)" by (rule fold_max_ge)
    with True show ?thesis by simp
  next
    case False
    with Cons show ?thesis by simp
  qed
qed

lemma local_slot_notin: "local_slot s \<notin> fst ` set (ptrs s)"
  using fold_max_mem[of "local_slot s" "map fst (ptrs s)" 0]
  by (auto simp: local_slot_def)

lemma local_slot_fresh [simp]: "m_ptr s (local_slot s) = None"
  using local_slot_notin[of s] by (simp add: m_ptr_def map_of_eq_None_iff)

lemma local_slot_neq: "m_ptr s this = Some m \<Longrightarrow> local_slot s \<noteq> this \<and> this \<noteq> local_slot s"
  by (metis local_slot_fresh option.distinct(1))

lemma temporary_gone:
  "t \<notin> fst ` set al \<Longrightarrow> t \<noteq> this \<Longrightarrow>
   AList.delete t (AList.update t v (AList.update this w (AList.update t u al)))
     = AList.update this w al"
  by (simp add: delete_update_same delete_update)

subsection \<open>Reading and writing the store\<close>

lemma m_ptr_set_m_ptr [simp]:
  "m_ptr (set_m_ptr k v s) j = (if j = k then Some v else m_ptr s j)"
  by (simp add: m_ptr_def set_m_ptr_def update_conv')

lemma set_m_ptr_fields [simp]:
  "ptrs (set_m_ptr k v s) = AList.update k v (ptrs s)"
  "refs (set_m_ptr k v s) = refs s"
  "heap (set_m_ptr k v s) = heap s"
  "log (set_m_ptr k v s) = log s"
  by (simp_all add: set_m_ptr_def)

lemma ref_ptr_set_ref_ptr [simp]:
  "ref_ptr (set_ref_ptr k v s) j = (if j = k then Some v else ref_ptr s j)"
  by (simp add: ref_ptr_def set_ref_ptr_def update_conv')

lemma set_ref_ptr_fields [simp]:
  "ptrs (set_ref_ptr k v s) = ptrs s"
  "refs (set_ref_ptr k v s) = AList.update k v (refs s)"
  "heap (set_ref_ptr k v s) = heap s"
  "log (set_ref_ptr k v s) = log s"
  by (simp_all add: set_ref_ptr_def)

lemma m_ptr_frame [simp]:
  "m_ptr (s\<lparr>heap := h\<rparr>) = m_ptr s"
  "m_ptr (s\<lparr>log := l\<rparr>) = m_ptr s"
  "m_ptr (s\<lparr>refs := r\<rparr>) = m_ptr s"
  "m_ptr (set_ref_ptr k v s) = m_ptr s"
  by (simp_all add: m_ptr_def fun_eq_iff)

lemma ref_ptr_frame [simp]:
  "ref_ptr (s\<lparr>heap := h\<rparr>) = ref_ptr s"
  "ref_ptr (s\<lparr>log := l\<rparr>) = ref_ptr s"
  "ref_ptr (s\<lparr>ptrs := r\<rparr>) = ref_ptr s"
  "ref_ptr (set_m_ptr k v s) = ref_ptr s"
  by (simp_all add: ref_ptr_def fun_eq_iff)

lemma and_then_simps [simp]:
  "and_then (Inl e) f = Inl e"
  "and_then (Inr x) f = f x"
  by (simp_all add: and_then_def)

subsection \<open>Adjusting counts\<close>

lemma refIfNotNull_eq: "m_ptr s this = Some m \<Longrightarrow> refIfNotNull this s = ref_value m s"
  by (simp add: refIfNotNull_def ref_value_def)

lemma derefIfNotNull_eq: "m_ptr s this = Some m \<Longrightarrow> derefIfNotNull this s = deref_value m s"
  by (simp add: derefIfNotNull_def deref_value_def)

lemma ref_value_ptrs:
  "ref_value m (s\<lparr>ptrs := al\<rparr>) = and_then (ref_value m s) (\<lambda>s1. Inr (s1\<lparr>ptrs := al\<rparr>))"
  by (simp add: ref_value_def incrementPtrCount_def split: ptr.splits option.splits)

lemma deref_value_ptrs:
  "deref_value m (s\<lparr>ptrs := al\<rparr>) = and_then (deref_value m s) (\<lambda>s1. Inr (s1\<lparr>ptrs := al\<rparr>))"
  by (simp add: deref_value_def decrementPtrCount_def split: ptr.splits option.splits)

lemma ref_value_frame:
  "ref_value m s = Inr s1 \<Longrightarrow> ptrs s1 = ptrs s \<and> refs s1 = refs s"
  by (auto simp: ref_value_def incrementPtrCount_def split: ptr.splits option.splits if_splits)

lemma deref_value_frame:
  "deref_value m s = Inr s1 \<Longrightarrow> ptrs s1 = ptrs s \<and> refs s1 = refs s"
  by (auto simp: deref_value_def decrementPtrCount_def split: ptr.splits option.splits if_splits)

subsection \<open>What the assignments amount to\<close>

lemma destroy_local:
  assumes "m_ptr s t = Some m"
  shows "destroy_CheckedPtr t s =
           and_then (deref_value m s) (\<lambda>s1. Inr (s1\<lparr>ptrs := AList.delete t (ptrs s)\<rparr>))"
proof (cases "deref_value m s")
  case (Inl e)
  with assms show ?thesis by (simp add: destroy_CheckedPtr_def derefIfNotNull_eq)
next
  case (Inr s1)
  with assms deref_value_frame[OF Inr] show ?thesis
    by (simp add: destroy_CheckedPtr_def derefIfNotNull_eq)
qed

lemma destroy_after_ptrs:
  assumes "map_of al t = Some m"
  shows "destroy_CheckedPtr t (s\<lparr>ptrs := al\<rparr>) =
           and_then (deref_value m s) (\<lambda>s2. Inr (s2\<lparr>ptrs := AList.delete t al\<rparr>))"
proof -
  have mt: "m_ptr (s\<lparr>ptrs := al\<rparr>) t = Some m" using assms by (simp add: m_ptr_def)
  show ?thesis
  proof (cases "deref_value m s")
    case (Inl e)
    then show ?thesis by (simp add: destroy_local[OF mt] deref_value_ptrs)
  next
    case (Inr s2)
    then show ?thesis by (simp add: destroy_local[OF mt] deref_value_ptrs)
  qed
qed

lemma assign_after_construct:
  assumes old: "m_ptr s this = Some old" and t: "t = local_slot s"
  shows "and_then (ref_value p (set_m_ptr t p s))
           (\<lambda>s1. and_then (PtrTraits_swap this t s1) (destroy_CheckedPtr t))
         = and_then (ref_value p s)
             (\<lambda>s1. and_then (deref_value old s1) (\<lambda>s2. Inr (set_m_ptr this p s2)))"
proof (cases "ref_value p s")
  case (Inl e)
  then show ?thesis by (simp add: set_m_ptr_def ref_value_ptrs)
next
  case (Inr s1)
  note fr = ref_value_frame[OF Inr]
  have ne: "t \<noteq> this" "this \<noteq> t" using local_slot_neq[OF old] t by auto
  have nin: "t \<notin> fst ` set (ptrs s)" using local_slot_notin[of s] t by simp
  define L where "L = AList.update t old (AList.update this p (AList.update t p (ptrs s)))"
  have sw: "PtrTraits_swap this t (s1\<lparr>ptrs := AList.update t p (ptrs s)\<rparr>) = Inr (s1\<lparr>ptrs := L\<rparr>)"
    using old ne fr by (simp add: PtrTraits_swap_def m_ptr_def update_conv' set_m_ptr_def L_def)
  have Lt: "map_of L t = Some old" by (simp add: L_def update_conv')
  have del: "AList.delete t L = AList.update this p (ptrs s)"
    unfolding L_def using nin ne by (simp add: temporary_gone)
  have lhs: "and_then (ref_value p (set_m_ptr t p s))
               (\<lambda>s1. and_then (PtrTraits_swap this t s1) (destroy_CheckedPtr t))
             = and_then (deref_value old s1) (\<lambda>s2. Inr (s2\<lparr>ptrs := AList.update this p (ptrs s)\<rparr>))"
    using Inr sw by (simp add: set_m_ptr_def ref_value_ptrs destroy_after_ptrs[OF Lt] del)
  have rhs: "and_then (deref_value old s1) (\<lambda>s2. Inr (set_m_ptr this p s2))
             = and_then (deref_value old s1) (\<lambda>s2. Inr (s2\<lparr>ptrs := AList.update this p (ptrs s)\<rparr>))"
  proof (cases "deref_value old s1")
    case (Inl e)
    then show ?thesis by simp
  next
    case (Inr s2)
    with deref_value_frame[OF Inr] fr show ?thesis by (simp add: set_m_ptr_def)
  qed
  show ?thesis using lhs rhs Inr by simp
qed

lemma operator_assign_raw_eq:
  assumes "m_ptr s this = Some old"
  shows "operator_assign_raw this p s =
           and_then (ref_value p s)
             (\<lambda>s1. and_then (deref_value old s1) (\<lambda>s2. Inr (set_m_ptr this p s2)))"
proof -
  have "operator_assign_raw this p s =
          and_then (ref_value p (set_m_ptr (local_slot s) p s))
            (\<lambda>s1. and_then (PtrTraits_swap this (local_slot s) s1) (destroy_CheckedPtr (local_slot s)))"
    by (simp add: operator_assign_raw_def CheckedPtr_raw_def refIfNotNull_eq and_then_def Let_def)
  then show ?thesis using assign_after_construct[OF assms refl] by simp
qed

lemma operator_assign_copy_eq:
  assumes "m_ptr s this = Some old" "m_ptr s other = Some new"
  shows "operator_assign_copy this other s =
           and_then (ref_value new s)
             (\<lambda>s1. and_then (deref_value old s1) (\<lambda>s2. Inr (set_m_ptr this new s2)))"
proof -
  have "operator_assign_copy this other s =
          and_then (ref_value new (set_m_ptr (local_slot s) new s))
            (\<lambda>s1. and_then (PtrTraits_swap this (local_slot s) s1) (destroy_CheckedPtr (local_slot s)))"
    using assms(2)
    by (simp add: operator_assign_copy_def CheckedPtr_copy_def refIfNotNull_eq and_then_def Let_def)
  then show ?thesis using assign_after_construct[OF assms(1) refl] by simp
qed

lemma operator_assign_converting_copy_eq:
  assumes "m_ptr s this = Some old" "m_ptr s other = Some new"
  shows "operator_assign_converting_copy this other s =
           and_then (ref_value new s)
             (\<lambda>s1. and_then (deref_value old s1) (\<lambda>s2. Inr (set_m_ptr this new s2)))"
proof -
  have "operator_assign_converting_copy this other s =
          and_then (ref_value new (set_m_ptr (local_slot s) new s))
            (\<lambda>s1. and_then (PtrTraits_swap this (local_slot s) s1) (destroy_CheckedPtr (local_slot s)))"
    using assms(2)
    by (simp add: operator_assign_converting_copy_def CheckedPtr_converting_copy_def
        CheckedPtr_raw_def PtrTraits_unwrap_def refIfNotNull_eq and_then_def Let_def)
  then show ?thesis using assign_after_construct[OF assms(1) refl] by simp
qed

lemma operator_assign_nullptr_eq:
  assumes "m_ptr s this = Some old"
  shows "operator_assign_nullptr this s =
           and_then (deref_value old s) (\<lambda>s2. Inr (set_m_ptr this Nullptr s2))"
  using assms by (simp add: operator_assign_nullptr_def derefIfNotNull_eq and_then_def)


lemma CheckedPtr_move_eq:
  "m_ptr s other = Some new \<Longrightarrow>
   CheckedPtr_move this other s = Inr (set_m_ptr this new (set_m_ptr other Nullptr s))"
  by (simp add: CheckedPtr_move_def PtrTraits_exchange_def)

lemma operator_assign_move_eq:
  assumes old: "m_ptr s this = Some old" and new: "m_ptr s other = Some new"
  shows "operator_assign_move this other s =
           and_then (deref_value (if this = other then Nullptr else old) s)
             (\<lambda>s2. Inr (set_m_ptr this new (set_m_ptr other Nullptr s2)))"
proof -
  define t where "t = local_slot s"
  define X where "X = (if this = other then Nullptr else old)"
  define al where "al = AList.update other Nullptr (ptrs s)"
  define L where "L = AList.update t X (AList.update this new (AList.update t new al))"
  have ne: "t \<noteq> this" "this \<noteq> t" "t \<noteq> other" "other \<noteq> t"
    using local_slot_neq[OF old] local_slot_neq[OF new] by (auto simp: t_def)
  have nin: "t \<notin> fst ` set al"
    using local_slot_notin[of s] ne by (simp add: al_def dom_update t_def)
  have sw: "PtrTraits_swap this t (s\<lparr>ptrs := AList.update t new al\<rparr>) = Inr (s\<lparr>ptrs := L\<rparr>)"
    using old new ne
    by (simp add: PtrTraits_swap_def m_ptr_def update_conv' set_m_ptr_def L_def al_def X_def)
  have Lt: "map_of L t = Some X" by (simp add: L_def update_conv')
  have del: "AList.delete t L = AList.update this new al"
    unfolding L_def using nin ne by (simp add: temporary_gone)
  have "operator_assign_move this other s =
          and_then (deref_value X s) (\<lambda>s2. Inr (s2\<lparr>ptrs := AList.update this new al\<rparr>))"
    using sw new
    by (simp add: operator_assign_move_def CheckedPtr_move_eq Let_def set_m_ptr_def
        destroy_after_ptrs[OF Lt] del t_def[symmetric] al_def[symmetric])
  also have "\<dots> = and_then (deref_value X s)
                     (\<lambda>s2. Inr (set_m_ptr this new (set_m_ptr other Nullptr s2)))"
  proof (cases "deref_value X s")
    case (Inl e)
    then show ?thesis by simp
  next
    case (Inr s2)
    with deref_value_frame[OF Inr] show ?thesis by (simp add: set_m_ptr_def al_def)
  qed
  finally show ?thesis by (simp add: X_def)
qed

subsection \<open>Unfolding the model on concrete stores\<close>

lemmas evals = operator_assign_copy_def operator_assign_move_def operator_assign_raw_def
  operator_assign_nullptr_def operator_assign_converting_copy_def
  CheckedPtr_copy_def CheckedPtr_move_def CheckedPtr_raw_def CheckedPtr_converting_copy_def
  CheckedPtr_default_def CheckedPtr_nullptr_def CheckedPtr_HashTableDeletedValue_def
  destroy_CheckedPtr_def refIfNotNull_def derefIfNotNull_def incrementPtrCount_def
  decrementPtrCount_def PtrTraits_swap_def PtrTraits_exchange_def PtrTraits_unwrap_def
  PtrTraits_hashTableDeletedValue_def PtrTraits_isHashTableDeletedValue_def
  local_slot_def m_ptr_def set_m_ptr_def ref_ptr_def set_ref_ptr_def ASSERT_def Let_def
  releaseNonNull_def CheckedRef_adopt_def CheckedRef_raw_def releasePtr_def
  destroy_CheckedRef_def CheckedPtr_adopt_CheckedRef_def CheckedPtr_from_CheckedRef_def
  get_def isHashTableDeletedValue_def customDeleteBucket_def customDeleteBucket_statements_def
  isDeletedValue_def constructDeletedValue_def

subsection \<open>Moves and bucket deletion\<close>

lemma customDeleteBucket_statements_eq:
  assumes "m_ptr s val = Some m" "m \<noteq> DeletedValue"
  shows "customDeleteBucket_statements dbg val s =
           Inr (s\<lparr>ptrs := AList.update val DeletedValue
                   (AList.update (local_slot s) m (AList.update val Nullptr (ptrs s)))\<rparr>)"
  using assms
  by (simp add: customDeleteBucket_statements_def isDeletedValue_def constructDeletedValue_def
      isHashTableDeletedValue_def ASSERT_def
      PtrTraits_isHashTableDeletedValue_def PtrTraits_hashTableDeletedValue_def
      CheckedPtr_move_eq CheckedPtr_HashTableDeletedValue_def Let_def set_m_ptr_def)

lemma customDeleteBucket_eq:
  assumes "m_ptr s val = Some m" "m \<noteq> DeletedValue"
  shows "customDeleteBucket dbg val s =
           and_then (deref_value m s)
             (\<lambda>s1. Inr (s1\<lparr>ptrs := AList.update val DeletedValue (ptrs s)\<rparr>))"
proof -
  define L where "L = AList.update val DeletedValue
                   (AList.update (local_slot s) m (AList.update val Nullptr (ptrs s)))"
  have ne: "local_slot s \<noteq> val" "val \<noteq> local_slot s"
    using local_slot_neq[OF assms(1)] by auto
  have Lt: "map_of L (local_slot s) = Some m"
    using ne by (simp add: L_def update_conv')
  have del: "AList.delete (local_slot s) L = AList.update val DeletedValue (ptrs s)"
    using ne local_slot_notin[of s] by (simp add: L_def delete_update delete_update_same)
  show ?thesis
    by (simp add: customDeleteBucket_def customDeleteBucket_statements_eq[OF assms]
        L_def[symmetric] destroy_after_ptrs[OF Lt] del)
qed

subsection \<open>Counting the holders of a pointer\<close>

lemma targeting_nonneg: "0 \<le> targeting x al"
  by (simp add: targeting_def)

lemma targeting_update:
  "targeting x (AList.update k v al) =
     targeting x al - (if map_of al k = Some x then 1 else 0) + (if v = x then 1 else 0)"
  by (induction al) (auto simp: targeting_def)

lemma targeting_delete:
  "distinct (map fst al) \<Longrightarrow>
   targeting x (AList.delete k al) = targeting x al - (if map_of al k = Some x then 1 else 0)"
  by (induction al) (auto simp: targeting_def map_of_eq_None_iff image_iff)

lemma targeting_ge1: "map_of al k = Some x \<Longrightarrow> 1 \<le> targeting x al"
  by (induction al) (auto simp: targeting_def split: if_splits)

lemma targeting_ge2:
  "map_of al k = Some x \<Longrightarrow> map_of al j = Some x \<Longrightarrow> k \<noteq> j \<Longrightarrow> 2 \<le> targeting x al"
proof (induction al)
  case Nil
  then show ?case by simp
next
  case (Cons e al)
  obtain i p where e: "e = (i, p)" by (cases e)
  show ?case
  proof (cases "i = k")
    case True
    with Cons.prems e have "p = x" "map_of al j = Some x" by auto
    with targeting_ge1[of al j x] e show ?thesis by (simp add: targeting_def)
  next
    case False
    note nk = this
    show ?thesis
    proof (cases "i = j")
      case True
      with Cons.prems e nk have "p = x" "map_of al k = Some x" by auto
      with targeting_ge1[of al k x] e show ?thesis by (simp add: targeting_def)
    next
      case False
      with nk Cons e have "2 \<le> targeting x al" by auto
      then show ?thesis by (simp add: targeting_def e)
    qed
  qed
qed

lemma counted_ge1:
  assumes "counted s" "m_ptr s this = Some (Addr a)" "heap s a = Some c"
  shows "1 \<le> c"
proof -
  have "c = live_count a s" using assms by (simp add: counted_def)
  moreover have "1 \<le> targeting (Addr a) (ptrs s)"
    using assms(2) by (simp add: m_ptr_def targeting_ge1)
  ultimately show ?thesis
    using targeting_nonneg[of "Addr a" "refs s"] by (simp add: live_count_def)
qed

lemma counted_ge2:
  assumes "counted s" "m_ptr s this = Some (Addr a)" "m_ptr s other = Some (Addr a)"
    "this \<noteq> other" "heap s a = Some c"
  shows "2 \<le> c"
proof -
  have "c = live_count a s" using assms by (simp add: counted_def)
  moreover have "2 \<le> targeting (Addr a) (ptrs s)"
    using assms(2,3,4) by (simp add: m_ptr_def targeting_ge2)
  ultimately show ?thesis
    using targeting_nonneg[of "Addr a" "refs s"] by (simp add: live_count_def)
qed

subsection \<open>The record of adjustments\<close>

lemma increments_first_append:
  "list_all is_increment i \<Longrightarrow> list_all (\<lambda>x. \<not> is_increment x) d \<Longrightarrow> increments_first (i @ d)"
proof (induction i)
  case Nil
  then show ?case by (cases d) auto
next
  case (Cons e i)
  then show ?case by simp
qed

lemma ref_value_log:
  "ref_value m s = Inr s1 \<Longrightarrow> \<exists>i. log s1 = log s @ i \<and> list_all is_increment i"
  by (auto simp: ref_value_def incrementPtrCount_def split: ptr.splits option.splits if_splits)

lemma deref_value_log:
  "deref_value m s = Inr s1 \<Longrightarrow> \<exists>d. log s1 = log s @ d \<and> list_all (\<lambda>x. \<not> is_increment x) d"
  by (auto simp: deref_value_def decrementPtrCount_def split: ptr.splits option.splits if_splits)

lemma and_then_Inr:
  "and_then r f = Inr y \<Longrightarrow> \<exists>x. r = Inr x \<and> f x = Inr y"
  by (cases r) simp_all

lemma adjust_then_store_log:
  assumes "and_then (ref_value new s)
             (\<lambda>s1. and_then (deref_value old s1) (\<lambda>s2. Inr (f s2))) = Inr s'"
    and "\<And>x. log (f x) = log x"
  shows "\<exists>es. log s' = log s @ es \<and> increments_first es"
proof -
  from and_then_Inr[OF assms(1)] obtain s1 where
    s1: "ref_value new s = Inr s1"
    and r: "and_then (deref_value old s1) (\<lambda>s2. Inr (f s2)) = Inr s'" by blast
  from and_then_Inr[OF r] obtain s2 where
    s2: "deref_value old s1 = Inr s2" and s': "s' = f s2" by auto
  from ref_value_log[OF s1] obtain i where i: "log s1 = log s @ i" "list_all is_increment i"
    by blast
  from deref_value_log[OF s2] obtain d where
    d: "log s2 = log s1 @ d" "list_all (\<lambda>x. \<not> is_increment x) d" by blast
  have "log s' = log s @ (i @ d)" using s' i d assms(2) by simp
  with increments_first_append[OF i(2) d(2)] show ?thesis by blast
qed

lemma ref_value_Nullptr [simp]: "ref_value Nullptr s = Inr s"
  by (simp add: ref_value_def PtrTraits_unwrap_def)

lemma deref_value_Nullptr [simp]: "deref_value Nullptr s = Inr s"
  by (simp add: deref_value_def PtrTraits_unwrap_def)

lemma operator_assign_nullptr_by_temporary:
  assumes "m_ptr s this = Some old"
  shows "operator_assign_nullptr this s =
           assign_by_temporary (\<lambda>t s. Inr (CheckedPtr_nullptr t s)) this s"
proof -
  have "assign_by_temporary (\<lambda>t s. Inr (CheckedPtr_nullptr t s)) this s =
          and_then (ref_value Nullptr (set_m_ptr (local_slot s) Nullptr s))
            (\<lambda>s1. and_then (PtrTraits_swap this (local_slot s) s1)
                     (destroy_CheckedPtr (local_slot s)))"
    by (simp add: assign_by_temporary_def CheckedPtr_nullptr_def Let_def)
  also have "\<dots> = and_then (ref_value Nullptr s)
             (\<lambda>s1. and_then (deref_value old s1) (\<lambda>s2. Inr (set_m_ptr this Nullptr s2)))"
    by (rule assign_after_construct[OF assms refl])
  finally show ?thesis by (simp add: operator_assign_nullptr_eq[OF assms])
qed

lemma assignments_by_temporary:
  "operator_assign_raw this p s = assign_by_temporary (\<lambda>t. CheckedPtr_raw t p) this s"
  "operator_assign_copy this other s = assign_by_temporary (\<lambda>t. CheckedPtr_copy t other) this s"
  "operator_assign_converting_copy this other s =
     assign_by_temporary (\<lambda>t. CheckedPtr_converting_copy t other) this s"
  "operator_assign_move this other s = assign_by_temporary (\<lambda>t. CheckedPtr_move t other) this s"
  by (simp_all add: assign_by_temporary_def operator_assign_raw_def operator_assign_copy_def
      operator_assign_converting_copy_def operator_assign_move_def and_then_def Let_def)

subsection \<open>The counts stay right\<close>

lemma live_count_frame [simp]:
  "live_count a (s\<lparr>heap := h\<rparr>) = live_count a s"
  "live_count a (s\<lparr>log := l\<rparr>) = live_count a s"
  by (simp_all add: live_count_def)

lemma live_count_set_m_ptr:
  "live_count a (set_m_ptr k v s) =
     live_count a s - (if m_ptr s k = Some (Addr a) then 1 else 0) + (if v = Addr a then 1 else 0)"
  by (simp add: live_count_def targeting_update m_ptr_def)

lemma live_count_set_ref_ptr:
  "live_count a (set_ref_ptr k v s) =
     live_count a s - (if ref_ptr s k = Some (Addr a) then 1 else 0) + (if v = Addr a then 1 else 0)"
  by (simp add: live_count_def targeting_update ref_ptr_def)

lemmas counting =
  counted_def live_count_def targeting_update targeting_delete m_ptr_def ref_ptr_def
  set_m_ptr_def set_ref_ptr_def distinct_update distinct_delete

lemma deref_value_cases:
  assumes "deref_value m s = Inr s1"
  obtains "m = Nullptr" "s1 = s"
  | a c where "m = Addr a" "heap s a = Some c"
      "s1 = s\<lparr>heap := (heap s)(a \<mapsto> c - 1), log := log s @ [Decremented a (c - 1)]\<rparr>"
  using assms
  by (auto simp: deref_value_def decrementPtrCount_def PtrTraits_unwrap_def
      split: ptr.splits option.splits if_splits)

lemma CheckedPtr_raw_eq:
  "CheckedPtr_raw this p s = and_then (ref_value p s) (\<lambda>s1. Inr (set_m_ptr this p s1))"
proof -
  have "CheckedPtr_raw this p s = ref_value p (set_m_ptr this p s)"
    by (simp add: CheckedPtr_raw_def refIfNotNull_eq[of "set_m_ptr this p s" this p])
  also have "\<dots> = and_then (ref_value p s) (\<lambda>s1. Inr (s1\<lparr>ptrs := AList.update this p (ptrs s)\<rparr>))"
    by (simp add: set_m_ptr_def ref_value_ptrs)
  also have "\<dots> = and_then (ref_value p s) (\<lambda>s1. Inr (set_m_ptr this p s1))"
  proof (cases "ref_value p s")
    case (Inl e)
    then show ?thesis by simp
  next
    case (Inr s1)
    with ref_value_frame[OF Inr] show ?thesis by (simp add: set_m_ptr_def)
  qed
  finally show ?thesis .
qed

lemma counted_after_adjust:
  assumes "counted s" "ref_value new s = Inr s1" "deref_value old s1 = Inr s2"
    "m_ptr s this = Some old"
  shows "counted (set_m_ptr this new s2)"
  using assms
  by (auto simp: counted_def ref_value_def deref_value_def incrementPtrCount_def
      decrementPtrCount_def PtrTraits_unwrap_def live_count_set_m_ptr distinct_update
      split: ptr.splits option.splits if_splits)

lemma counted_after_construct:
  assumes "counted s" "ref_value new s = Inr s1" "m_ptr s this = None"
  shows "counted (set_m_ptr this new s1)"
  using assms
  by (auto simp: counted_def ref_value_def incrementPtrCount_def
      PtrTraits_unwrap_def live_count_set_m_ptr distinct_update
      split: ptr.splits option.splits if_splits)

lemma counted_after_move_construct:
  assumes "counted s" "m_ptr s other = Some new" "m_ptr s this = None"
  shows "counted (set_m_ptr this new (set_m_ptr other Nullptr s))"
  using assms
  by (auto simp: counted_def live_count_set_m_ptr distinct_update)

lemma counted_after_move_assign:
  assumes "counted s" "deref_value old s = Inr s2" "m_ptr s other = Some new"
    "m_ptr s this = Some old" "this \<noteq> other"
  shows "counted (set_m_ptr this new (set_m_ptr other Nullptr s2))"
  using assms
  by (auto simp: counted_def deref_value_def decrementPtrCount_def
      PtrTraits_unwrap_def live_count_set_m_ptr distinct_update
      split: ptr.splits option.splits if_splits)

lemma counted_after_destroy:
  assumes "counted s" "deref_value old s = Inr s1" "m_ptr s this = Some old"
  shows "counted (s1\<lparr>ptrs := AList.delete this (ptrs s)\<rparr>)"
  using assms(2)
proof (cases rule: deref_value_cases)
  case 1
  with assms(1,3) show ?thesis by (auto simp: counting)
next
  case (2 a c)
  with assms(1,3) show ?thesis by (auto simp: counting)
qed

lemma counted_after_release:
  assumes "counted s" "m_ptr s this = Some m" "ref_ptr s r = None"
  shows "counted (set_ref_ptr r m (set_m_ptr this Nullptr s))"
  using assms
  by (auto simp: counted_def live_count_set_m_ptr live_count_set_ref_ptr distinct_update)

lemma counted_after_adopt:
  assumes "counted s" "ref_ptr s r = Some p" "m_ptr s this = None"
  shows "counted (set_m_ptr this p (set_ref_ptr r Nullptr s))"
  using assms
  by (auto simp: counted_def live_count_set_m_ptr live_count_set_ref_ptr distinct_update)

lemma counted_after_ref_construct:
  assumes "counted s" "incrementPtrCount p s = Inr s1" "ref_ptr s r = None"
  shows "counted (set_ref_ptr r p s1)"
  using assms
  by (auto simp: counted_def incrementPtrCount_def live_count_set_ref_ptr distinct_update
      split: ptr.splits option.splits if_splits)

lemma counted_after_ref_destroy:
  assumes "counted s" "destroy_CheckedRef r s = Inr s'"
  shows "counted s'"
proof -
  from assms(2) obtain p where p: "ref_ptr s r = Some p"
    by (auto simp: destroy_CheckedRef_def split: option.splits)
  show ?thesis
  proof (cases p)
    case Nullptr
    with assms p show ?thesis
      by (auto simp: destroy_CheckedRef_def counting)
  next
    case DeletedValue
    with assms p show ?thesis
      by (auto simp: destroy_CheckedRef_def decrementPtrCount_def)
  next
    case (Addr a)
    with assms p show ?thesis
      by (auto simp: destroy_CheckedRef_def decrementPtrCount_def counting split: option.splits)
  qed
qed

lemma counted_after_self_move:
  assumes "counted s" "m_ptr s this = Some m"
  shows "counted (set_m_ptr this m (set_m_ptr this Nullptr s))"
  using assms
  by (auto simp: counted_def live_count_set_m_ptr distinct_update)

lemma counted_raw:
  assumes "counted s" "CheckedPtr_raw this p s = Inr s'" "m_ptr s this = None"
  shows "counted s'"
proof -
  from assms(2) obtain s1 where "ref_value p s = Inr s1" "s' = set_m_ptr this p s1"
    using and_then_Inr[of "ref_value p s" "\<lambda>s1. Inr (set_m_ptr this p s1)" s']
    by (auto simp: CheckedPtr_raw_eq)
  with counted_after_construct[OF assms(1) _ assms(3)] show ?thesis by simp
qed

lemma counted_assign:
  assumes "counted s" "m_ptr s this = Some old"
    "and_then (ref_value new s)
       (\<lambda>s1. and_then (deref_value old s1) (\<lambda>s2. Inr (set_m_ptr this new s2))) = Inr s'"
  shows "counted s'"
proof -
  from and_then_Inr[OF assms(3)] obtain s1 where
    s1: "ref_value new s = Inr s1"
    and r: "and_then (deref_value old s1) (\<lambda>s2. Inr (set_m_ptr this new s2)) = Inr s'" by blast
  from and_then_Inr[OF r] obtain s2 where
    s2: "deref_value old s1 = Inr s2" and s': "s' = set_m_ptr this new s2" by auto
  show ?thesis unfolding s' by (rule counted_after_adjust[OF assms(1) s1 s2 assms(2)])
qed

lemma step_counted:
  assumes c: "counted s" and st: "step dbg x s = Inr s'"
  shows "counted s'"
proof (cases x)
  case (Construct_default this)
  with st have "m_ptr s this = None" "s' = set_m_ptr this Nullptr s"
    by (auto simp: CheckedPtr_default_def split: if_splits)
  with counted_after_construct[OF c, of Nullptr s this] show ?thesis by simp
next
  case (Construct_raw this p)
  with st have "m_ptr s this = None" "CheckedPtr_raw this p s = Inr s'"
    by (auto split: if_splits)
  with counted_raw[OF c] show ?thesis by blast
next
  case (Construct_copy this other)
  with st have f: "m_ptr s this = None" and r: "CheckedPtr_copy this other s = Inr s'"
    by (auto split: if_splits)
  from r obtain om where "m_ptr s other = Some om" "CheckedPtr_raw this om s = Inr s'"
    by (auto simp: CheckedPtr_copy_def CheckedPtr_raw_def split: option.splits)
  with counted_raw[OF c _ f] show ?thesis by blast
next
  case (Construct_converting_copy this other)
  with st have f: "m_ptr s this = None"
    and r: "CheckedPtr_converting_copy this other s = Inr s'"
    by (auto split: if_splits)
  from r obtain om where "m_ptr s other = Some om" "CheckedPtr_raw this om s = Inr s'"
    by (auto simp: CheckedPtr_converting_copy_def PtrTraits_unwrap_def split: option.splits)
  with counted_raw[OF c _ f] show ?thesis by blast
next
  case (Construct_move this other)
  with st have f: "m_ptr s this = None" and r: "CheckedPtr_move this other s = Inr s'"
    by (auto split: if_splits)
  from r obtain new where new: "m_ptr s other = Some new"
    by (auto simp: CheckedPtr_move_def PtrTraits_exchange_def split: option.splits)
  with r have "s' = set_m_ptr this new (set_m_ptr other Nullptr s)"
    by (simp add: CheckedPtr_move_eq)
  with counted_after_move_construct[OF c new f] show ?thesis by simp
next
  case (Construct_from_ref this r)
  with st have f: "m_ptr s this = None" and r: "CheckedPtr_from_CheckedRef this r s = Inr s'"
    by (auto split: if_splits)
  from r obtain p where "CheckedPtr_raw this p s = Inr s'"
    by (auto simp: CheckedPtr_from_CheckedRef_def PtrTraits_unwrap_def split: option.splits)
  with counted_raw[OF c _ f] show ?thesis by blast
next
  case (Construct_adopt_ref this r)
  with st have f: "m_ptr s this = None"
    and r: "CheckedPtr_adopt_CheckedRef dbg this r s = Inr s'"
    by (auto split: if_splits)
  from r obtain p where "ref_ptr s r = Some p" "s' = set_m_ptr this p (set_ref_ptr r Nullptr s)"
    by (auto simp: CheckedPtr_adopt_CheckedRef_def releasePtr_def get_def ASSERT_def Let_def
        split: option.splits if_splits)
  with counted_after_adopt[OF c _ f] show ?thesis by simp
next
  case (Assign_nullptr this)
  with st obtain old where old: "m_ptr s this = Some old"
    and r: "operator_assign_nullptr this s = Inr s'"
    by (auto split: if_splits)
  from r have "and_then (ref_value Nullptr s)
       (\<lambda>s1. and_then (deref_value old s1) (\<lambda>s2. Inr (set_m_ptr this Nullptr s2))) = Inr s'"
    by (simp add: operator_assign_nullptr_eq[OF old])
  then show ?thesis by (rule counted_assign[OF c old])
next
  case (Assign_raw this p)
  with st obtain old where old: "m_ptr s this = Some old"
    and r: "operator_assign_raw this p s = Inr s'"
    by (auto split: if_splits)
  from r show ?thesis
    by (simp add: operator_assign_raw_eq[OF old] counted_assign[OF c old])
next
  case (Assign_copy this other)
  with st obtain old where old: "m_ptr s this = Some old"
    and r: "operator_assign_copy this other s = Inr s'"
    by (auto split: if_splits)
  from r obtain new where new: "m_ptr s other = Some new"
    by (auto simp: operator_assign_copy_def CheckedPtr_copy_def Let_def split: option.splits)
  from r show ?thesis
    by (simp add: operator_assign_copy_eq[OF old new] counted_assign[OF c old])
next
  case (Assign_converting_copy this other)
  with st obtain old where old: "m_ptr s this = Some old"
    and r: "operator_assign_converting_copy this other s = Inr s'"
    by (auto split: if_splits)
  from r obtain new where new: "m_ptr s other = Some new"
    by (auto simp: operator_assign_converting_copy_def CheckedPtr_converting_copy_def Let_def
        split: option.splits)
  from r show ?thesis
    by (simp add: operator_assign_converting_copy_eq[OF old new] counted_assign[OF c old])
next
  case (Assign_move this other)
  with st obtain old where old: "m_ptr s this = Some old"
    and r: "operator_assign_move this other s = Inr s'"
    by (auto split: if_splits)
  from r obtain new where new: "m_ptr s other = Some new"
    by (auto simp: operator_assign_move_def CheckedPtr_move_def PtrTraits_exchange_def Let_def
        split: option.splits)
  show ?thesis
  proof (cases "this = other")
    case True
    have "operator_assign_move this this s = Inr (set_m_ptr this old (set_m_ptr this Nullptr s))"
      using operator_assign_move_eq[OF old old] by simp
    with r True have "s' = set_m_ptr this old (set_m_ptr this Nullptr s)" by simp
    with counted_after_self_move[OF c old] show ?thesis by simp
  next
    case False
    with r obtain s2 where "deref_value old s = Inr s2"
      "s' = set_m_ptr this new (set_m_ptr other Nullptr s2)"
      using and_then_Inr[of "deref_value old s"
          "\<lambda>s2. Inr (set_m_ptr this new (set_m_ptr other Nullptr s2))" s']
      by (auto simp: operator_assign_move_eq[OF old new])
    with counted_after_move_assign[OF c _ new old False] show ?thesis by simp
  qed
next
  case (Release_non_null this r)
  with st have f: "ref_ptr s r = None" and rr: "releaseNonNull dbg this r s = Inr s'"
    by (auto split: if_splits)
  from rr obtain m where "m_ptr s this = Some m" "s' = set_ref_ptr r m (set_m_ptr this Nullptr s)"
    by (auto simp: releaseNonNull_def ASSERT_def Let_def CheckedRef_adopt_def
        PtrTraits_unwrap_def split: option.splits if_splits)
  with counted_after_release[OF c _ f] show ?thesis by simp
next
  case (Destroy this)
  with st have r: "destroy_CheckedPtr this s = Inr s'" by simp
  then obtain old where old: "m_ptr s this = Some old"
    by (auto simp: destroy_CheckedPtr_def derefIfNotNull_def split: option.splits)
  from r obtain s1 where "deref_value old s = Inr s1"
    "s' = s1\<lparr>ptrs := AList.delete this (ptrs s)\<rparr>"
    using and_then_Inr[of "deref_value old s"
        "\<lambda>s1. Inr (s1\<lparr>ptrs := AList.delete this (ptrs s)\<rparr>)" s']
    by (auto simp: destroy_local[OF old])
  with counted_after_destroy[OF c _ old] show ?thesis by simp
next
  case (Ref_construct r p)
  with st have f: "ref_ptr s r = None" and rr: "CheckedRef_raw dbg r p s = Inr s'"
    by (auto split: if_splits)
  from rr obtain s1 where "incrementPtrCount p s = Inr s1" "s' = set_ref_ptr r p s1"
    by (auto simp: CheckedRef_raw_def ASSERT_def split: sum.splits if_splits)
  with counted_after_ref_construct[OF c _ f] show ?thesis by simp
next
  case (Ref_destroy r)
  with st have "destroy_CheckedRef r s = Inr s'" by simp
  then show ?thesis by (rule counted_after_ref_destroy[OF c])
qed

lemma run_counted: "counted s \<Longrightarrow> run dbg xs s = Inr s' \<Longrightarrow> counted s'"
proof (induction xs arbitrary: s)
  case Nil
  then show ?case by simp
next
  case (Cons x xs)
  from Cons.prems(2) obtain s1 where s1: "step dbg x s = Inr s1" and r: "run dbg xs s1 = Inr s'"
    by (auto split: sum.splits)
  from step_counted[OF Cons.prems(1) s1] r show ?case by (rule Cons.IH)
qed

lemma counted_initial: "counted (initial pointees)"
  by (simp add: counted_def initial_def live_count_def targeting_def)

subsection \<open>The pointees stay the same\<close>

lemma ref_value_dom: "ref_value m s = Inr s1 \<Longrightarrow> dom (heap s1) = dom (heap s)"
  by (auto simp: ref_value_def incrementPtrCount_def split: ptr.splits option.splits if_splits)

lemma deref_value_dom: "deref_value m s = Inr s1 \<Longrightarrow> dom (heap s1) = dom (heap s)"
  by (auto simp: deref_value_def decrementPtrCount_def split: ptr.splits option.splits if_splits)

lemma adjust_dom:
  assumes "and_then (ref_value new s)
             (\<lambda>s1. and_then (deref_value old s1) (\<lambda>s2. Inr (f s2))) = Inr s'"
    and "\<And>x. heap (f x) = heap x"
  shows "dom (heap s') = dom (heap s)"
proof -
  from and_then_Inr[OF assms(1)] obtain s1 where
    s1: "ref_value new s = Inr s1"
    and r: "and_then (deref_value old s1) (\<lambda>s2. Inr (f s2)) = Inr s'" by blast
  from and_then_Inr[OF r] obtain s2 where
    s2: "deref_value old s1 = Inr s2" and s': "s' = f s2" by auto
  from ref_value_dom[OF s1] deref_value_dom[OF s2] s' assms(2) show ?thesis by simp
qed

lemma step_dom:
  assumes st: "step dbg x s = Inr s'"
  shows "dom (heap s') = dom (heap s)"
proof (cases x)
  case (Construct_default this)
  with st show ?thesis by (auto simp: CheckedPtr_default_def split: if_splits)
next
  case (Construct_raw this p)
  with st have "and_then (ref_value p s)
      (\<lambda>s1. and_then (deref_value Nullptr s1) (\<lambda>s2. Inr (set_m_ptr this p s2))) = Inr s'"
    by (auto simp: CheckedPtr_raw_eq split: if_splits)
  then show ?thesis by (rule adjust_dom) simp
next
  case (Construct_copy this other)
  with st obtain om where "CheckedPtr_raw this om s = Inr s'"
    by (auto simp: CheckedPtr_copy_def CheckedPtr_raw_def split: option.splits if_splits)
  then have "and_then (ref_value om s)
      (\<lambda>s1. and_then (deref_value Nullptr s1) (\<lambda>s2. Inr (set_m_ptr this om s2))) = Inr s'"
    by (simp add: CheckedPtr_raw_eq)
  then show ?thesis by (rule adjust_dom) simp
next
  case (Construct_converting_copy this other)
  with st obtain om where "CheckedPtr_raw this om s = Inr s'"
    by (auto simp: CheckedPtr_converting_copy_def PtrTraits_unwrap_def
        split: option.splits if_splits)
  then have "and_then (ref_value om s)
      (\<lambda>s1. and_then (deref_value Nullptr s1) (\<lambda>s2. Inr (set_m_ptr this om s2))) = Inr s'"
    by (simp add: CheckedPtr_raw_eq)
  then show ?thesis by (rule adjust_dom) simp
next
  case (Construct_move this other)
  with st show ?thesis
    by (auto simp: CheckedPtr_move_def PtrTraits_exchange_def split: option.splits if_splits)
next
  case (Construct_from_ref this r)
  with st obtain p where "CheckedPtr_raw this p s = Inr s'"
    by (auto simp: CheckedPtr_from_CheckedRef_def PtrTraits_unwrap_def
        split: option.splits if_splits)
  then have "and_then (ref_value p s)
      (\<lambda>s1. and_then (deref_value Nullptr s1) (\<lambda>s2. Inr (set_m_ptr this p s2))) = Inr s'"
    by (simp add: CheckedPtr_raw_eq)
  then show ?thesis by (rule adjust_dom) simp
next
  case (Construct_adopt_ref this r)
  with st show ?thesis
    by (auto simp: CheckedPtr_adopt_CheckedRef_def releasePtr_def get_def ASSERT_def Let_def
        split: option.splits if_splits)
next
  case (Assign_nullptr this)
  with st obtain old where old: "m_ptr s this = Some old"
    and r: "operator_assign_nullptr this s = Inr s'"
    by (auto split: if_splits)
  from r have "and_then (ref_value Nullptr s)
       (\<lambda>s1. and_then (deref_value old s1) (\<lambda>s2. Inr (set_m_ptr this Nullptr s2))) = Inr s'"
    by (simp add: operator_assign_nullptr_eq[OF old])
  then show ?thesis by (rule adjust_dom) simp
next
  case (Assign_raw this p)
  with st obtain old where old: "m_ptr s this = Some old"
    and r: "operator_assign_raw this p s = Inr s'"
    by (auto split: if_splits)
  from r have "and_then (ref_value p s)
       (\<lambda>s1. and_then (deref_value old s1) (\<lambda>s2. Inr (set_m_ptr this p s2))) = Inr s'"
    by (simp add: operator_assign_raw_eq[OF old])
  then show ?thesis by (rule adjust_dom) simp
next
  case (Assign_copy this other)
  with st obtain old where old: "m_ptr s this = Some old"
    and r: "operator_assign_copy this other s = Inr s'"
    by (auto split: if_splits)
  from r obtain new where new: "m_ptr s other = Some new"
    by (auto simp: operator_assign_copy_def CheckedPtr_copy_def Let_def split: option.splits)
  from r have "and_then (ref_value new s)
       (\<lambda>s1. and_then (deref_value old s1) (\<lambda>s2. Inr (set_m_ptr this new s2))) = Inr s'"
    by (simp add: operator_assign_copy_eq[OF old new])
  then show ?thesis by (rule adjust_dom) simp
next
  case (Assign_converting_copy this other)
  with st obtain old where old: "m_ptr s this = Some old"
    and r: "operator_assign_converting_copy this other s = Inr s'"
    by (auto split: if_splits)
  from r obtain new where new: "m_ptr s other = Some new"
    by (auto simp: operator_assign_converting_copy_def CheckedPtr_converting_copy_def Let_def
        split: option.splits)
  from r have "and_then (ref_value new s)
       (\<lambda>s1. and_then (deref_value old s1) (\<lambda>s2. Inr (set_m_ptr this new s2))) = Inr s'"
    by (simp add: operator_assign_converting_copy_eq[OF old new])
  then show ?thesis by (rule adjust_dom) simp
next
  case (Assign_move this other)
  with st obtain old where old: "m_ptr s this = Some old"
    and r: "operator_assign_move this other s = Inr s'"
    by (auto split: if_splits)
  from r obtain new where new: "m_ptr s other = Some new"
    by (auto simp: operator_assign_move_def CheckedPtr_move_def PtrTraits_exchange_def Let_def
        split: option.splits)
  from r have "and_then (ref_value Nullptr s)
       (\<lambda>s1. and_then (deref_value (if this = other then Nullptr else old) s1)
          (\<lambda>s2. Inr (set_m_ptr this new (set_m_ptr other Nullptr s2)))) = Inr s'"
    by (simp add: operator_assign_move_eq[OF old new])
  then show ?thesis by (rule adjust_dom) simp
next
  case (Release_non_null this r)
  with st show ?thesis
    by (auto simp: releaseNonNull_def ASSERT_def Let_def CheckedRef_adopt_def
        PtrTraits_unwrap_def split: option.splits if_splits)
next
  case (Destroy this)
  with st have r: "destroy_CheckedPtr this s = Inr s'" by simp
  then obtain old where old: "m_ptr s this = Some old"
    by (auto simp: destroy_CheckedPtr_def derefIfNotNull_def split: option.splits)
  from r have "and_then (ref_value Nullptr s)
       (\<lambda>s1. and_then (deref_value old s1)
          (\<lambda>s2. Inr (s2\<lparr>ptrs := AList.delete this (ptrs s)\<rparr>))) = Inr s'"
    by (simp add: destroy_local[OF old])
  then show ?thesis by (rule adjust_dom) simp
next
  case (Ref_construct r p)
  with st show ?thesis
    by (auto simp: CheckedRef_raw_def ASSERT_def incrementPtrCount_def
        split: sum.splits if_splits ptr.splits option.splits)
next
  case (Ref_destroy r)
  with st show ?thesis
    by (auto simp: destroy_CheckedRef_def decrementPtrCount_def
        split: sum.splits if_splits ptr.splits option.splits)
qed

lemma run_dom: "run dbg xs s = Inr s' \<Longrightarrow> dom (heap s') = dom (heap s)"
proof (induction xs arbitrary: s)
  case Nil
  then show ?case by simp
next
  case (Cons x xs)
  from Cons.prems obtain s1 where s1: "step dbg x s = Inr s1" and r: "run dbg xs s1 = Inr s'"
    by (auto split: sum.splits)
  from step_dom[OF s1] Cons.IH[OF r] show ?case by simp
qed

section \<open>The counting invariant\<close>

text \<open>
  C1. After every program of constructions (empty, from a raw pointer, from a checked
  pointer by copy or move, from a checked reference by copy or adoption), assignments,
  resets, releases and destructions that runs from a store with no checked pointers,
  the count of every pointee is the number of live checked pointers and references
  that target it: each of them accounts for exactly one increment.
\<close>

theorem count_is_number_of_live_checked_pointers:
  assumes "run dbg program (initial pointees) = Inr s"
  shows "counted s \<and> (\<forall>a \<in> set pointees. heap s a = Some (live_count a s))"
proof -
  have c: "counted s" using run_counted[OF counted_initial assms] .
  have "dom (heap s) = set pointees"
    using run_dom[OF assms] by (auto simp: initial_def dom_def)
  with c show ?thesis by (auto simp: counted_def)
qed

theorem count_is_number_of_live_checked_pointers_witness:
  "run True [Construct_raw 0 (Addr 7), Construct_copy 1 0, Construct_move 2 1,
             Assign_nullptr 0] (initial [7])
     = Inr \<lparr>ptrs = [(0, Nullptr), (1, Nullptr), (2, Addr 7)], refs = [],
            heap = (heap (initial [7]))(7 \<mapsto> 1),
            log = [Incremented 7 1, Incremented 7 2, Decremented 7 1]\<rparr> \<and>
   heap \<lparr>ptrs = [(0, Nullptr), (1, Nullptr), (2, Addr 7)], refs = [],
         heap = (heap (initial [7]))(7 \<mapsto> 1),
         log = [Incremented 7 1, Incremented 7 2, Decremented 7 1]\<rparr> 7 = Some 1 \<and>
   live_count 7 \<lparr>ptrs = [(0, Nullptr), (1, Nullptr), (2, Addr 7)], refs = [],
         heap = (heap (initial [7]))(7 \<mapsto> 1),
         log = [Incremented 7 1, Incremented 7 2, Decremented 7 1]\<rparr> = 1"
  using count_is_number_of_live_checked_pointers
          [of True "[Construct_raw 0 (Addr 7), Construct_copy 1 0, Construct_move 2 1,
             Assign_nullptr 0]" "[7]"
             "\<lparr>ptrs = [(0, Nullptr), (1, Nullptr), (2, Addr 7)], refs = [],
            heap = (heap (initial [7]))(7 \<mapsto> 1),
            log = [Incremented 7 1, Incremented 7 2, Decremented 7 1]\<rparr>"]
  by (simp add: evals initial_def live_count_def targeting_def)

section \<open>Observers\<close>

text \<open>
  C9. The conversion to bool of a checked pointer is true exactly when its slot is not
  null, for the explicit conversion and for the implicit one, whose result is a
  pointer to member (null or not) and not a number.
\<close>

theorem boolean_conversion_iff_non_null:
  "m_ptr s this = Some m \<Longrightarrow>
     operator_bool this s = Inr (m \<noteq> Nullptr, s) \<and>
     (\<exists>f. operator_UnspecifiedBoolType this s = Inr (f, s) \<and>
          (contextually_true f \<longleftrightarrow> m \<noteq> Nullptr))"
  by (simp add: operator_bool_def operator_UnspecifiedBoolType_def PtrTraits_unwrap_def
      contextually_true_def)

theorem boolean_conversion_iff_non_null_witness:
  "m_ptr \<lparr>ptrs = [(0, Addr 7), (1, Nullptr)], refs = [], heap = [7 \<mapsto> 1], log = []\<rparr> 1 = Some Nullptr \<and>
   operator_bool 1 \<lparr>ptrs = [(0, Addr 7), (1, Nullptr)], refs = [], heap = [7 \<mapsto> 1], log = []\<rparr>
     = Inr (False, \<lparr>ptrs = [(0, Addr 7), (1, Nullptr)], refs = [], heap = [7 \<mapsto> 1], log = []\<rparr>) \<and>
   m_ptr \<lparr>ptrs = [(0, Addr 7), (1, Nullptr)], refs = [], heap = [7 \<mapsto> 1], log = []\<rparr> 0 = Some (Addr 7) \<and>
   operator_bool 0 \<lparr>ptrs = [(0, Addr 7), (1, Nullptr)], refs = [], heap = [7 \<mapsto> 1], log = []\<rparr>
     = Inr (True, \<lparr>ptrs = [(0, Addr 7), (1, Nullptr)], refs = [], heap = [7 \<mapsto> 1], log = []\<rparr>)"
  using boolean_conversion_iff_non_null
          [of "\<lparr>ptrs = [(0, Addr 7), (1, Nullptr)], refs = [], heap = [7 \<mapsto> 1], log = []\<rparr>" 1 Nullptr]
        boolean_conversion_iff_non_null
          [of "\<lparr>ptrs = [(0, Addr 7), (1, Nullptr)], refs = [], heap = [7 \<mapsto> 1], log = []\<rparr>" 0 "Addr 7"]
  by (simp add: m_ptr_def)

text \<open>
  C10. The observers \<open>get\<close>, the conversions to bool, \<open>isHashTableDeletedValue\<close> and
  the equality with a raw pointer or another checked pointer return the store as they
  found it: no slot and no count changes. Equality compares the stored addresses.
\<close>

theorem observers_leave_store_unchanged:
  "m_ptr s this = Some m \<Longrightarrow> m_ptr s other = Some om \<Longrightarrow>
     get this s = Inr (m, s) \<and>
     operator_bool this s = Inr (m \<noteq> Nullptr, s) \<and>
     (\<exists>f. operator_UnspecifiedBoolType this s = Inr (f, s)) \<and>
     isHashTableDeletedValue this s = Inr (m = DeletedValue, s) \<and>
     operator_eq_raw this p s = Inr (m = p, s) \<and>
     operator_eq this other s = Inr (m = om, s)"
  by (simp add: get_def operator_bool_def operator_UnspecifiedBoolType_def
      isHashTableDeletedValue_def operator_eq_raw_def operator_eq_def PtrTraits_unwrap_def
      PtrTraits_isHashTableDeletedValue_def PtrTraits_hashTableDeletedValue_def)

theorem observers_leave_store_unchanged_witness:
  "m_ptr \<lparr>ptrs = [(0, Addr 7), (1, Nullptr)], refs = [], heap = [7 \<mapsto> 1], log = []\<rparr> 0 = Some (Addr 7) \<and>
   m_ptr \<lparr>ptrs = [(0, Addr 7), (1, Nullptr)], refs = [], heap = [7 \<mapsto> 1], log = []\<rparr> 1 = Some Nullptr \<and>
   get 0 \<lparr>ptrs = [(0, Addr 7), (1, Nullptr)], refs = [], heap = [7 \<mapsto> 1], log = []\<rparr>
     = Inr (Addr 7, \<lparr>ptrs = [(0, Addr 7), (1, Nullptr)], refs = [], heap = [7 \<mapsto> 1], log = []\<rparr>) \<and>
   operator_eq 0 1 \<lparr>ptrs = [(0, Addr 7), (1, Nullptr)], refs = [], heap = [7 \<mapsto> 1], log = []\<rparr>
     = Inr (False, \<lparr>ptrs = [(0, Addr 7), (1, Nullptr)], refs = [], heap = [7 \<mapsto> 1], log = []\<rparr>) \<and>
   operator_eq_raw 0 (Addr 7) \<lparr>ptrs = [(0, Addr 7), (1, Nullptr)], refs = [], heap = [7 \<mapsto> 1], log = []\<rparr>
     = Inr (True, \<lparr>ptrs = [(0, Addr 7), (1, Nullptr)], refs = [], heap = [7 \<mapsto> 1], log = []\<rparr>)"
  using observers_leave_store_unchanged
          [of "\<lparr>ptrs = [(0, Addr 7), (1, Nullptr)], refs = [], heap = [7 \<mapsto> 1], log = []\<rparr>"
              0 "Addr 7" 1 Nullptr "Addr 7"]
  by (simp add: m_ptr_def)

text \<open>
  C8, as the code has it. \<open>operator*\<close> asserts that the slot is not null where
  assertions are enabled, and is undefined on a null slot where they are not;
  \<open>operator->\<close> makes no check and hands back the stored pointer, null for a null
  slot. On a slot that is not null both return the pointee's address, and neither
  changes the slot or the count.
\<close>

theorem dereference_and_member_access:
  "m_ptr s this = Some m \<Longrightarrow>
     (m = Nullptr \<longrightarrow>
        operator_star True this s = Inl AssertionFailure \<and>
        operator_star False this s = Inl NullDereference \<and>
        operator_arrow this s = Inr (Nullptr, s)) \<and>
     (m \<noteq> Nullptr \<longrightarrow>
        operator_star dbg this s = Inr (m, s) \<and>
        operator_arrow this s = Inr (m, s))"
  by (simp add: operator_star_def operator_arrow_def get_def ASSERT_def PtrTraits_unwrap_def)

theorem dereference_and_member_access_witness:
  "m_ptr \<lparr>ptrs = [(0, Addr 7), (1, Nullptr)], refs = [], heap = [7 \<mapsto> 1], log = []\<rparr> 0 = Some (Addr 7) \<and>
   Addr 7 \<noteq> Nullptr \<and>
   operator_star True 0 \<lparr>ptrs = [(0, Addr 7), (1, Nullptr)], refs = [], heap = [7 \<mapsto> 1], log = []\<rparr>
     = Inr (Addr 7, \<lparr>ptrs = [(0, Addr 7), (1, Nullptr)], refs = [], heap = [7 \<mapsto> 1], log = []\<rparr>) \<and>
   m_ptr \<lparr>ptrs = [(0, Addr 7), (1, Nullptr)], refs = [], heap = [7 \<mapsto> 1], log = []\<rparr> 1 = Some Nullptr \<and>
   operator_star True 1 \<lparr>ptrs = [(0, Addr 7), (1, Nullptr)], refs = [], heap = [7 \<mapsto> 1], log = []\<rparr>
     = Inl AssertionFailure \<and>
   operator_star False 1 \<lparr>ptrs = [(0, Addr 7), (1, Nullptr)], refs = [], heap = [7 \<mapsto> 1], log = []\<rparr>
     = Inl NullDereference"
  using dereference_and_member_access
          [of "\<lparr>ptrs = [(0, Addr 7), (1, Nullptr)], refs = [], heap = [7 \<mapsto> 1], log = []\<rparr>"
              0 "Addr 7" True]
        dereference_and_member_access
          [of "\<lparr>ptrs = [(0, Addr 7), (1, Nullptr)], refs = [], heap = [7 \<mapsto> 1], log = []\<rparr>"
              1 Nullptr True]
  by (simp add: m_ptr_def)

text \<open>
  Member access through a null checked pointer returns the null pointer without any
  assertion, whichever the build.
\<close>

theorem arrow_on_null_returns_without_assertion:
  "operator_arrow 0 \<lparr>ptrs = [(0, Nullptr)], refs = [], heap = [7 \<mapsto> 0], log = []\<rparr>
     = Inr (Nullptr, \<lparr>ptrs = [(0, Nullptr)], refs = [], heap = [7 \<mapsto> 0], log = []\<rparr>)"
  by (simp add: operator_arrow_def get_def m_ptr_def PtrTraits_unwrap_def)

section \<open>Assignment and move\<close>

text \<open>
  C5. Assigning a checked pointer to itself is a no-op: for a null slot and for a slot
  that points at a live pointee, copy assignment returns with every slot and every
  count as before, and so does move assignment.
\<close>

theorem self_assignment_is_no_op:
  assumes "m_ptr s this = Some m"
    and "m = Nullptr \<or> (\<exists>a c. m = Addr a \<and> heap s a = Some c)"
  shows "(\<exists>s'. operator_assign_copy this this s = Inr s' \<and>
               m_ptr s' this = Some m \<and> ptrs s' = ptrs s \<and> refs s' = refs s \<and>
               heap s' = heap s) \<and>
         operator_assign_move this this s = Inr s"
proof -
  have upd: "AList.update this m (ptrs s) = ptrs s"
    using assms(1) by (simp add: m_ptr_def update_triv)
  have mv: "operator_assign_move this this s = Inr s"
    using upd
    by (simp add: operator_assign_move_eq[OF assms(1) assms(1)] deref_value_def
        PtrTraits_unwrap_def set_m_ptr_def)
  from assms(2) have "\<exists>s'. operator_assign_copy this this s = Inr s' \<and>
               m_ptr s' this = Some m \<and> ptrs s' = ptrs s \<and> refs s' = refs s \<and>
               heap s' = heap s"
  proof
    assume "m = Nullptr"
    with upd assms(1) show ?thesis
      by (simp add: operator_assign_copy_eq[OF assms(1) assms(1)] ref_value_def deref_value_def
          PtrTraits_unwrap_def)
  next
    assume "\<exists>a c. m = Addr a \<and> heap s a = Some c"
    then obtain a c where "m = Addr a" "heap s a = Some c" by blast
    with upd assms(1) show ?thesis
      by (simp add: operator_assign_copy_eq[OF assms(1) assms(1)] ref_value_def deref_value_def
          PtrTraits_unwrap_def incrementPtrCount_def decrementPtrCount_def map_upd_triv)
  qed
  with mv show ?thesis by simp
qed

theorem self_assignment_is_no_op_witness:
  "m_ptr \<lparr>ptrs = [(0, Addr 7)], refs = [], heap = [7 \<mapsto> 1], log = []\<rparr> 0 = Some (Addr 7) \<and>
   heap \<lparr>ptrs = [(0, Addr 7)], refs = [], heap = [7 \<mapsto> 1], log = []\<rparr> 7 = Some 1 \<and>
   operator_assign_copy 0 0 \<lparr>ptrs = [(0, Addr 7)], refs = [], heap = [7 \<mapsto> 1], log = []\<rparr>
     = Inr \<lparr>ptrs = [(0, Addr 7)], refs = [], heap = [7 \<mapsto> 1],
            log = [Incremented 7 2, Decremented 7 1]\<rparr> \<and>
   operator_assign_move 0 0 \<lparr>ptrs = [(0, Addr 7)], refs = [], heap = [7 \<mapsto> 1], log = []\<rparr>
     = Inr \<lparr>ptrs = [(0, Addr 7)], refs = [], heap = [7 \<mapsto> 1], log = []\<rparr>"
  using self_assignment_is_no_op
          [of "\<lparr>ptrs = [(0, Addr 7)], refs = [], heap = [7 \<mapsto> 1], log = []\<rparr>" 0 "Addr 7"]
  by (simp add: evals)

text \<open>
  C2, as the code has it. Assignment from a raw pointer and from another checked
  pointer (copy, converting copy, move) is the procedure "construct a temporary,
  exchange it with the slot, destroy the temporary". Assignment from null builds no
  temporary: it decrements while the slot still holds the old pointer and then sets
  the slot to null, and ends in the store the procedure would end in. In the record
  of adjustments that any assignment leaves, no increment comes after a decrement, so
  the count of the new pointee goes up before the count of the old pointee goes down;
  and in a store whose counts are right, a pointee that both the old and the new value
  point at never has its count at zero on the way.
\<close>

theorem assignment_increments_before_it_decrements:
  assumes old: "m_ptr s this = Some old" and new: "m_ptr s other = Some new"
  shows
   "assign_by_temporary construct this s =
      and_then (exchange_with_temporary construct this s) (destroy_CheckedPtr (local_slot s)) \<and>
    operator_assign_nullptr this s =
      and_then (derefIfNotNull this s) (\<lambda>s1. Inr (set_m_ptr this Nullptr s1)) \<and>
    (old = Addr a \<and> heap s a = Some ca \<longrightarrow>
       (\<exists>s1. derefIfNotNull this s = Inr s1 \<and>
             ptrs s1 = ptrs s \<and> m_ptr s1 this = Some (Addr a) \<and>
             heap s1 = (heap s)(a \<mapsto> ca - 1) \<and> log s1 = log s @ [Decremented a (ca - 1)] \<and>
             operator_assign_nullptr this s = Inr (set_m_ptr this Nullptr s1))) \<and>
    operator_assign_nullptr this s =
      assign_by_temporary (\<lambda>t s. Inr (CheckedPtr_nullptr t s)) this s \<and>
    operator_assign_raw this p s = assign_by_temporary (\<lambda>t. CheckedPtr_raw t p) this s \<and>
    operator_assign_copy this other s =
      assign_by_temporary (\<lambda>t. CheckedPtr_copy t other) this s \<and>
    operator_assign_converting_copy this other s =
      assign_by_temporary (\<lambda>t. CheckedPtr_converting_copy t other) this s \<and>
    operator_assign_move this other s =
      assign_by_temporary (\<lambda>t. CheckedPtr_move t other) this s \<and>
    (\<forall>s'. operator_assign_nullptr this s = Inr s' \<or> operator_assign_raw this p s = Inr s' \<or>
          operator_assign_copy this other s = Inr s' \<or>
          operator_assign_converting_copy this other s = Inr s' \<or>
          operator_assign_move this other s = Inr s'
          \<longrightarrow> (\<exists>es. log s' = log s @ es \<and> increments_first es)) \<and>
    (old = Addr a \<and> heap s a = Some ca \<and> heap s b = Some cb \<and> a \<noteq> b \<longrightarrow>
       (\<exists>s'. operator_assign_raw this (Addr b) s = Inr s' \<and> m_ptr s' this = Some (Addr b) \<and>
             log s' = log s @ [Incremented b (cb + 1), Decremented a (ca - 1)])) \<and>
    (counted s \<and> old = Addr a \<and> heap s a = Some ca \<longrightarrow>
       (\<exists>s'. operator_assign_raw this (Addr a) s = Inr s' \<and>
             log s' = log s @ [Incremented a (ca + 1), Decremented a ca] \<and>
             list_all (\<lambda>c. 0 < c) (counts_taken a (drop (length (log s)) (log s'))))) \<and>
    (counted s \<and> old = Addr a \<and> new = Addr a \<and> heap s a = Some ca \<longrightarrow>
       (\<exists>s'. operator_assign_copy this other s = Inr s' \<and>
             operator_assign_converting_copy this other s = Inr s' \<and>
             log s' = log s @ [Incremented a (ca + 1), Decremented a ca] \<and>
             list_all (\<lambda>c. 0 < c) (counts_taken a (drop (length (log s)) (log s'))))) \<and>
    (counted s \<and> old = Addr a \<and> new = Addr a \<and> this \<noteq> other \<and> heap s a = Some ca \<longrightarrow>
       (\<exists>s'. operator_assign_move this other s = Inr s' \<and>
             log s' = log s @ [Decremented a (ca - 1)] \<and>
             list_all (\<lambda>c. 0 < c) (counts_taken a (drop (length (log s)) (log s')))))"
proof -
  have T: "assign_by_temporary construct this s =
      and_then (exchange_with_temporary construct this s) (destroy_CheckedPtr (local_slot s))"
    by (cases "construct (local_slot s) s")
      (simp_all add: assign_by_temporary_def exchange_with_temporary_def Let_def)
  have N1: "operator_assign_nullptr this s =
      and_then (derefIfNotNull this s) (\<lambda>s1. Inr (set_m_ptr this Nullptr s1))"
    by (simp add: operator_assign_nullptr_def and_then_def)
  have N2: "old = Addr a \<and> heap s a = Some ca \<longrightarrow>
       (\<exists>s1. derefIfNotNull this s = Inr s1 \<and>
             ptrs s1 = ptrs s \<and> m_ptr s1 this = Some (Addr a) \<and>
             heap s1 = (heap s)(a \<mapsto> ca - 1) \<and> log s1 = log s @ [Decremented a (ca - 1)] \<and>
             operator_assign_nullptr this s = Inr (set_m_ptr this Nullptr s1))"
    using old
    by (auto simp: operator_assign_nullptr_def derefIfNotNull_def PtrTraits_unwrap_def
        decrementPtrCount_def)
  have R1: "operator_assign_nullptr this s =
      assign_by_temporary (\<lambda>t s. Inr (CheckedPtr_nullptr t s)) this s"
    by (rule operator_assign_nullptr_by_temporary[OF old])
  have O: "\<exists>es. log s' = log s @ es \<and> increments_first es"
    if "operator_assign_nullptr this s = Inr s' \<or> operator_assign_raw this p s = Inr s' \<or>
          operator_assign_copy this other s = Inr s' \<or>
          operator_assign_converting_copy this other s = Inr s' \<or>
          operator_assign_move this other s = Inr s'" for s'
    using that
  proof (elim disjE)
    assume "operator_assign_nullptr this s = Inr s'"
    then have "and_then (ref_value Nullptr s)
             (\<lambda>s1. and_then (deref_value old s1) (\<lambda>s2. Inr (set_m_ptr this Nullptr s2))) = Inr s'"
      by (simp add: operator_assign_nullptr_eq[OF old])
    then show ?thesis by (rule adjust_then_store_log) simp
  next
    assume "operator_assign_raw this p s = Inr s'"
    then have "and_then (ref_value p s)
             (\<lambda>s1. and_then (deref_value old s1) (\<lambda>s2. Inr (set_m_ptr this p s2))) = Inr s'"
      by (simp add: operator_assign_raw_eq[OF old])
    then show ?thesis by (rule adjust_then_store_log) simp
  next
    assume "operator_assign_copy this other s = Inr s'"
    then have "and_then (ref_value new s)
             (\<lambda>s1. and_then (deref_value old s1) (\<lambda>s2. Inr (set_m_ptr this new s2))) = Inr s'"
      by (simp add: operator_assign_copy_eq[OF old new])
    then show ?thesis by (rule adjust_then_store_log) simp
  next
    assume "operator_assign_converting_copy this other s = Inr s'"
    then have "and_then (ref_value new s)
             (\<lambda>s1. and_then (deref_value old s1) (\<lambda>s2. Inr (set_m_ptr this new s2))) = Inr s'"
      by (simp add: operator_assign_converting_copy_eq[OF old new])
    then show ?thesis by (rule adjust_then_store_log) simp
  next
    assume "operator_assign_move this other s = Inr s'"
    then have "and_then (ref_value Nullptr s)
             (\<lambda>s1. and_then (deref_value (if this = other then Nullptr else old) s1)
                (\<lambda>s2. Inr (set_m_ptr this new (set_m_ptr other Nullptr s2)))) = Inr s'"
      by (simp add: operator_assign_move_eq[OF old new])
    then show ?thesis by (rule adjust_then_store_log) simp
  qed
  have E1: "old = Addr a \<and> heap s a = Some ca \<and> heap s b = Some cb \<and> a \<noteq> b \<longrightarrow>
       (\<exists>s'. operator_assign_raw this (Addr b) s = Inr s' \<and> m_ptr s' this = Some (Addr b) \<and>
             log s' = log s @ [Incremented b (cb + 1), Decremented a (ca - 1)])"
    using old
    by (auto simp: operator_assign_raw_eq ref_value_def deref_value_def PtrTraits_unwrap_def
        incrementPtrCount_def decrementPtrCount_def)
  have E2: "counted s \<and> old = Addr a \<and> heap s a = Some ca \<longrightarrow>
       (\<exists>s'. operator_assign_raw this (Addr a) s = Inr s' \<and>
             log s' = log s @ [Incremented a (ca + 1), Decremented a ca] \<and>
             list_all (\<lambda>c. 0 < c) (counts_taken a (drop (length (log s)) (log s'))))"
    using old counted_ge1[of s this a ca]
    by (auto simp: operator_assign_raw_eq ref_value_def deref_value_def PtrTraits_unwrap_def
        incrementPtrCount_def decrementPtrCount_def counts_taken_def)
  have E3: "counted s \<and> old = Addr a \<and> new = Addr a \<and> heap s a = Some ca \<longrightarrow>
       (\<exists>s'. operator_assign_copy this other s = Inr s' \<and>
             operator_assign_converting_copy this other s = Inr s' \<and>
             log s' = log s @ [Incremented a (ca + 1), Decremented a ca] \<and>
             list_all (\<lambda>c. 0 < c) (counts_taken a (drop (length (log s)) (log s'))))"
    using old new counted_ge1[of s this a ca]
    by (auto simp: operator_assign_copy_eq operator_assign_converting_copy_eq ref_value_def
        deref_value_def PtrTraits_unwrap_def incrementPtrCount_def decrementPtrCount_def
        counts_taken_def)
  have E4: "counted s \<and> old = Addr a \<and> new = Addr a \<and> this \<noteq> other \<and> heap s a = Some ca \<longrightarrow>
       (\<exists>s'. operator_assign_move this other s = Inr s' \<and>
             log s' = log s @ [Decremented a (ca - 1)] \<and>
             list_all (\<lambda>c. 0 < c) (counts_taken a (drop (length (log s)) (log s'))))"
    using old new counted_ge2[of s this a other ca]
    by (auto simp: operator_assign_move_eq deref_value_def PtrTraits_unwrap_def
        decrementPtrCount_def counts_taken_def)
  from O have O': "\<forall>s'. operator_assign_nullptr this s = Inr s' \<or> operator_assign_raw this p s = Inr s' \<or>
          operator_assign_copy this other s = Inr s' \<or>
          operator_assign_converting_copy this other s = Inr s' \<or>
          operator_assign_move this other s = Inr s'
          \<longrightarrow> (\<exists>es. log s' = log s @ es \<and> increments_first es)" by blast
  show ?thesis
    by (intro conjI T N1 N2 R1 assignments_by_temporary O' E1 E2 E3 E4)
qed

theorem assignment_increments_before_it_decrements_witness:
  "m_ptr \<lparr>ptrs = [(0, Addr 7), (1, Addr 7)], refs = [], heap = [7 \<mapsto> 2, 8 \<mapsto> 0], log = []\<rparr> 0
     = Some (Addr 7) \<and>
   m_ptr \<lparr>ptrs = [(0, Addr 7), (1, Addr 7)], refs = [], heap = [7 \<mapsto> 2, 8 \<mapsto> 0], log = []\<rparr> 1
     = Some (Addr 7) \<and>
   counted \<lparr>ptrs = [(0, Addr 7), (1, Addr 7)], refs = [], heap = [7 \<mapsto> 2, 8 \<mapsto> 0], log = []\<rparr> \<and>
   operator_assign_raw 0 (Addr 8)
     \<lparr>ptrs = [(0, Addr 7), (1, Addr 7)], refs = [], heap = [7 \<mapsto> 2, 8 \<mapsto> 0], log = []\<rparr>
     = Inr \<lparr>ptrs = [(0, Addr 8), (1, Addr 7)], refs = [],
            heap = [7 \<mapsto> 2, 8 \<mapsto> 1, 7 \<mapsto> 1],
            log = [Incremented 8 1, Decremented 7 1]\<rparr> \<and>
   operator_assign_copy 0 1
     \<lparr>ptrs = [(0, Addr 7), (1, Addr 7)], refs = [], heap = [7 \<mapsto> 2, 8 \<mapsto> 0], log = []\<rparr>
     = Inr \<lparr>ptrs = [(0, Addr 7), (1, Addr 7)], refs = [],
            heap = [7 \<mapsto> 2, 8 \<mapsto> 0, 7 \<mapsto> 2],
            log = [Incremented 7 3, Decremented 7 2]\<rparr> \<and>
   operator_assign_move 0 1
     \<lparr>ptrs = [(0, Addr 7), (1, Addr 7)], refs = [], heap = [7 \<mapsto> 2, 8 \<mapsto> 0], log = []\<rparr>
     = Inr \<lparr>ptrs = [(0, Addr 7), (1, Nullptr)], refs = [],
            heap = [7 \<mapsto> 2, 8 \<mapsto> 0, 7 \<mapsto> 1],
            log = [Decremented 7 1]\<rparr> \<and>
   derefIfNotNull 0
     \<lparr>ptrs = [(0, Addr 7), (1, Addr 7)], refs = [], heap = [7 \<mapsto> 2, 8 \<mapsto> 0], log = []\<rparr>
     = Inr \<lparr>ptrs = [(0, Addr 7), (1, Addr 7)], refs = [],
            heap = [7 \<mapsto> 2, 8 \<mapsto> 0, 7 \<mapsto> 1],
            log = [Decremented 7 1]\<rparr> \<and>
   operator_assign_nullptr 0
     \<lparr>ptrs = [(0, Addr 7), (1, Addr 7)], refs = [], heap = [7 \<mapsto> 2, 8 \<mapsto> 0], log = []\<rparr>
     = Inr \<lparr>ptrs = [(0, Nullptr), (1, Addr 7)], refs = [],
            heap = [7 \<mapsto> 2, 8 \<mapsto> 0, 7 \<mapsto> 1],
            log = [Decremented 7 1]\<rparr> \<and>
   increments_first [Incremented 8 1, Decremented 7 1]"
  using assignment_increments_before_it_decrements
          [where s = "\<lparr>ptrs = [(0, Addr 7), (1, Addr 7)], refs = [],
                      heap = [7 \<mapsto> 2, 8 \<mapsto> 0], log = []\<rparr>"
             and this = 0 and old = "Addr 7" and other = 1 and new = "Addr 7"
             and p = "Addr 8" and a = 7 and ca = 2 and b = 8 and cb = 0
             and construct = "\<lambda>t. CheckedPtr_raw t (Addr 8)"]
  by (simp add: evals counted_def live_count_def targeting_def)

text \<open>
  One checked pointer at a pointee with count 1, assigned null. The code makes the
  decrement in a store that holds no temporary and in which the slot still holds the
  old pointer, and sets the slot to null afterwards. By the procedure with a
  temporary the decrement would be made from a store in which the slot is null
  already and the temporary holds the old pointer.
\<close>

theorem assignment_from_null_builds_no_temporary:
  "derefIfNotNull 0 \<lparr>ptrs = [(0, Addr 7)], refs = [], heap = [7 \<mapsto> 1], log = []\<rparr>
     = Inr \<lparr>ptrs = [(0, Addr 7)], refs = [], heap = [7 \<mapsto> 0], log = [Decremented 7 0]\<rparr> \<and>
   operator_assign_nullptr 0 \<lparr>ptrs = [(0, Addr 7)], refs = [], heap = [7 \<mapsto> 1], log = []\<rparr>
     = Inr \<lparr>ptrs = [(0, Nullptr)], refs = [], heap = [7 \<mapsto> 0], log = [Decremented 7 0]\<rparr> \<and>
   exchange_with_temporary (\<lambda>t s. Inr (CheckedPtr_nullptr t s)) 0
     \<lparr>ptrs = [(0, Addr 7)], refs = [], heap = [7 \<mapsto> 1], log = []\<rparr>
     = Inr \<lparr>ptrs = [(0, Nullptr), (1, Addr 7)], refs = [], heap = [7 \<mapsto> 1], log = []\<rparr>"
  by (simp add: evals exchange_with_temporary_def)

text \<open>
  C3, as the code has it. Move construction changes no count, leaves the source null
  and the destination holding what the source held. Move assignment from another
  checked pointer leaves the source null and the destination holding what the source
  held; its one effect on counts is a decrement of the pointee the destination held
  before, so the count of the moved pointee is as before unless the destination
  pointed at it already. Move assignment of a checked pointer to itself changes
  nothing, and does not null it.
\<close>

theorem move_transfers_the_slot:
  assumes new: "m_ptr s other = Some new"
  shows "(d \<noteq> other \<longrightarrow>
            (\<exists>s'. CheckedPtr_move d other s = Inr s' \<and>
                  m_ptr s' d = Some new \<and> m_ptr s' other = Some Nullptr \<and>
                  heap s' = heap s \<and> log s' = log s)) \<and>
         (this \<noteq> other \<and> m_ptr s this = Some Nullptr \<longrightarrow>
            (\<exists>s'. operator_assign_move this other s = Inr s' \<and>
                  m_ptr s' this = Some new \<and> m_ptr s' other = Some Nullptr \<and>
                  heap s' = heap s \<and> log s' = log s)) \<and>
         (this \<noteq> other \<and> m_ptr s this = Some (Addr b) \<and> heap s b = Some c \<longrightarrow>
            (\<exists>s'. operator_assign_move this other s = Inr s' \<and>
                  m_ptr s' this = Some new \<and> m_ptr s' other = Some Nullptr \<and>
                  heap s' = (heap s)(b \<mapsto> c - 1) \<and>
                  log s' = log s @ [Decremented b (c - 1)])) \<and>
         operator_assign_move other other s = Inr s"
proof -
  have 1: "d \<noteq> other \<longrightarrow>
            (\<exists>s'. CheckedPtr_move d other s = Inr s' \<and>
                  m_ptr s' d = Some new \<and> m_ptr s' other = Some Nullptr \<and>
                  heap s' = heap s \<and> log s' = log s)"
    by (simp add: CheckedPtr_move_eq[OF new])
  have 2: "this \<noteq> other \<and> m_ptr s this = Some Nullptr \<longrightarrow>
            (\<exists>s'. operator_assign_move this other s = Inr s' \<and>
                  m_ptr s' this = Some new \<and> m_ptr s' other = Some Nullptr \<and>
                  heap s' = heap s \<and> log s' = log s)"
    using new by (auto simp: operator_assign_move_eq deref_value_def PtrTraits_unwrap_def)
  have 3: "this \<noteq> other \<and> m_ptr s this = Some (Addr b) \<and> heap s b = Some c \<longrightarrow>
            (\<exists>s'. operator_assign_move this other s = Inr s' \<and>
                  m_ptr s' this = Some new \<and> m_ptr s' other = Some Nullptr \<and>
                  heap s' = (heap s)(b \<mapsto> c - 1) \<and>
                  log s' = log s @ [Decremented b (c - 1)])"
    using new
    by (auto simp: operator_assign_move_eq deref_value_def PtrTraits_unwrap_def
        decrementPtrCount_def)
  have upd: "AList.update other new (ptrs s) = ptrs s"
    using new by (simp add: m_ptr_def update_triv)
  have 4: "operator_assign_move other other s = Inr s"
    using upd
    by (simp add: operator_assign_move_eq[OF new new] deref_value_def
        PtrTraits_unwrap_def set_m_ptr_def)
  from 1 2 3 4 show ?thesis by blast
qed

theorem move_transfers_the_slot_witness:
  "m_ptr \<lparr>ptrs = [(0, Addr 7), (1, Addr 8), (2, Nullptr)], refs = [],
          heap = [7 \<mapsto> 1, 8 \<mapsto> 1], log = []\<rparr> 1 = Some (Addr 8) \<and>
   CheckedPtr_move 3 1
     \<lparr>ptrs = [(0, Addr 7), (1, Addr 8), (2, Nullptr)], refs = [],
      heap = [7 \<mapsto> 1, 8 \<mapsto> 1], log = []\<rparr>
     = Inr \<lparr>ptrs = [(0, Addr 7), (1, Nullptr), (2, Nullptr), (3, Addr 8)], refs = [],
            heap = [7 \<mapsto> 1, 8 \<mapsto> 1], log = []\<rparr> \<and>
   operator_assign_move 2 1
     \<lparr>ptrs = [(0, Addr 7), (1, Addr 8), (2, Nullptr)], refs = [],
      heap = [7 \<mapsto> 1, 8 \<mapsto> 1], log = []\<rparr>
     = Inr \<lparr>ptrs = [(0, Addr 7), (1, Nullptr), (2, Addr 8)], refs = [],
            heap = [7 \<mapsto> 1, 8 \<mapsto> 1], log = []\<rparr> \<and>
   operator_assign_move 0 1
     \<lparr>ptrs = [(0, Addr 7), (1, Addr 8), (2, Nullptr)], refs = [],
      heap = [7 \<mapsto> 1, 8 \<mapsto> 1], log = []\<rparr>
     = Inr \<lparr>ptrs = [(0, Addr 8), (1, Nullptr), (2, Nullptr)], refs = [],
            heap = [7 \<mapsto> 1, 8 \<mapsto> 1, 7 \<mapsto> 0], log = [Decremented 7 0]\<rparr>"
  using move_transfers_the_slot
          [of "\<lparr>ptrs = [(0, Addr 7), (1, Addr 8), (2, Nullptr)], refs = [],
                heap = [7 \<mapsto> 1, 8 \<mapsto> 1], log = []\<rparr>" 1 "Addr 8" 3 2 7 1]
        move_transfers_the_slot
          [of "\<lparr>ptrs = [(0, Addr 7), (1, Addr 8), (2, Nullptr)], refs = [],
                heap = [7 \<mapsto> 1, 8 \<mapsto> 1], log = []\<rparr>" 1 "Addr 8" 3 0 7 1]
  by (simp add: evals)

text \<open>
  Two checked pointers at the same pointee, count 2: move assignment of one to the
  other leaves the count at 1. Move assignment of a checked pointer to itself leaves
  it pointing where it did.
\<close>

theorem move_assignment_counterexample:
  "operator_assign_move 0 1
     \<lparr>ptrs = [(0, Addr 7), (1, Addr 7)], refs = [], heap = [7 \<mapsto> 2], log = []\<rparr>
     = Inr \<lparr>ptrs = [(0, Addr 7), (1, Nullptr)], refs = [], heap = [7 \<mapsto> 1],
            log = [Decremented 7 1]\<rparr> \<and>
   operator_assign_move 0 0
     \<lparr>ptrs = [(0, Addr 7), (1, Addr 7)], refs = [], heap = [7 \<mapsto> 2], log = []\<rparr>
     = Inr \<lparr>ptrs = [(0, Addr 7), (1, Addr 7)], refs = [], heap = [7 \<mapsto> 2], log = []\<rparr>"
  by (simp add: evals)

section \<open>Release and adoption\<close>

text \<open>
  C6, as the code has it. \<open>releaseNonNull\<close> has the precondition that the slot is not
  null. On a null slot it fails by assertion where assertions are enabled, and is
  undefined (a null pointer is dereferenced) where they are compiled out. Under the
  precondition, in either build, it makes no count adjustment, hands the pointer to the
  returned checked reference and leaves the slot null.
\<close>

theorem releaseNonNull_detaches:
  assumes "m_ptr s this = Some m"
  shows "(m = Nullptr \<longrightarrow>
            releaseNonNull True this r s = Inl AssertionFailure \<and>
            releaseNonNull False this r s = Inl NullDereference) \<and>
         (m \<noteq> Nullptr \<longrightarrow>
            (\<exists>s'. releaseNonNull dbg this r s = Inr s' \<and>
                  m_ptr s' this = Some Nullptr \<and> ref_ptr s' r = Some m \<and>
                  heap s' = heap s \<and> log s' = log s))"
  using assms
  by (simp add: releaseNonNull_def ASSERT_def PtrTraits_unwrap_def CheckedRef_adopt_def Let_def)

theorem releaseNonNull_detaches_witness:
  "m_ptr \<lparr>ptrs = [(0, Addr 7), (1, Nullptr)], refs = [], heap = [7 \<mapsto> 1], log = []\<rparr> 0 = Some (Addr 7) \<and>
   Addr 7 \<noteq> Nullptr \<and>
   releaseNonNull True 0 0 \<lparr>ptrs = [(0, Addr 7), (1, Nullptr)], refs = [], heap = [7 \<mapsto> 1], log = []\<rparr>
     = Inr \<lparr>ptrs = [(0, Nullptr), (1, Nullptr)], refs = [(0, Addr 7)], heap = [7 \<mapsto> 1], log = []\<rparr> \<and>
   m_ptr \<lparr>ptrs = [(0, Addr 7), (1, Nullptr)], refs = [], heap = [7 \<mapsto> 1], log = []\<rparr> 1 = Some Nullptr \<and>
   releaseNonNull True 1 0 \<lparr>ptrs = [(0, Addr 7), (1, Nullptr)], refs = [], heap = [7 \<mapsto> 1], log = []\<rparr>
     = Inl AssertionFailure"
  using releaseNonNull_detaches
          [of "\<lparr>ptrs = [(0, Addr 7), (1, Nullptr)], refs = [], heap = [7 \<mapsto> 1], log = []\<rparr>"
              0 "Addr 7" 0 True]
        releaseNonNull_detaches
          [of "\<lparr>ptrs = [(0, Addr 7), (1, Nullptr)], refs = [], heap = [7 \<mapsto> 1], log = []\<rparr>"
              1 Nullptr 0 True]
  by (simp add: evals)

text \<open>
  In a build without assertions \<open>releaseNonNull\<close> on a null slot does not fail by
  assertion.
\<close>

theorem releaseNonNull_without_assertions:
  "releaseNonNull False 0 0 \<lparr>ptrs = [(0, Nullptr)], refs = [], heap = [7 \<mapsto> 0], log = []\<rparr>
     = Inl NullDereference"
  by (simp add: evals)

text \<open>
  C4. Releasing a checked pointer that is not null into a checked reference and
  constructing a new checked pointer from that reference makes no count adjustment at
  any point, also not when the emptied reference is destroyed, and the new checked
  pointer holds the pointer the first one held.
\<close>

theorem release_and_adopt_round_trip:
  assumes "m_ptr s this = Some m" and "m \<noteq> Nullptr"
  shows "\<exists>s1 s2 s3.
           releaseNonNull dbg this r s = Inr s1 \<and>
           CheckedPtr_adopt_CheckedRef dbg new r s1 = Inr s2 \<and>
           destroy_CheckedRef r s2 = Inr s3 \<and>
           m_ptr s3 new = Some m \<and> (new \<noteq> this \<longrightarrow> m_ptr s3 this = Some Nullptr) \<and>
           heap s1 = heap s \<and> heap s2 = heap s \<and> heap s3 = heap s \<and>
           log s1 = log s \<and> log s2 = log s \<and> log s3 = log s"
  using assms
  by (simp add: releaseNonNull_def ASSERT_def PtrTraits_unwrap_def CheckedRef_adopt_def Let_def
      CheckedPtr_adopt_CheckedRef_def releasePtr_def get_def destroy_CheckedRef_def)

theorem release_and_adopt_round_trip_witness:
  "m_ptr \<lparr>ptrs = [(0, Addr 7)], refs = [], heap = [7 \<mapsto> 1], log = []\<rparr> 0 = Some (Addr 7) \<and>
   Addr 7 \<noteq> Nullptr \<and>
   and_then (releaseNonNull True 0 0
               \<lparr>ptrs = [(0, Addr 7)], refs = [], heap = [7 \<mapsto> 1], log = []\<rparr>)
     (\<lambda>s1. and_then (CheckedPtr_adopt_CheckedRef True 1 0 s1) (destroy_CheckedRef 0))
     = Inr \<lparr>ptrs = [(0, Nullptr), (1, Addr 7)], refs = [], heap = [7 \<mapsto> 1], log = []\<rparr>"
  using release_and_adopt_round_trip
          [of "\<lparr>ptrs = [(0, Addr 7)], refs = [], heap = [7 \<mapsto> 1], log = []\<rparr>" 0 "Addr 7" True 0 1]
  by (simp add: evals)

section \<open>Hash table values\<close>

text \<open>
  C7, as the code has it. A checked pointer constructed from the deleted value holds an
  encoding that is neither null nor any address, recognised by
  \<open>isHashTableDeletedValue\<close> (which is false for null and for every address), and its
  construction adjusts no count; the empty value is null. \<open>customDeleteBucket\<close> moves
  the bucket into a local, which adjusts no count, then overwrites the bucket with the
  deleted value, and the destruction of the local at the end of the body then
  decrements the count of the pointee once (not at all for a null bucket).
\<close>

theorem hash_table_values:
  "(\<exists>s'. CheckedPtr_HashTableDeletedValue this s = s' \<and>
         m_ptr s' this = Some DeletedValue \<and> heap s' = heap s \<and> log s' = log s \<and>
         isHashTableDeletedValue this s' = Inr (True, s') \<and>
         operator_eq_raw this Nullptr s' = Inr (False, s') \<and>
         operator_eq_raw this (Addr a) s' = Inr (False, s')) \<and>
   (m_ptr s val = Some Nullptr \<or> m_ptr s val = Some (Addr a)
      \<longrightarrow> isHashTableDeletedValue val s = Inr (False, s)) \<and>
   emptyValue = Nullptr \<and>
   (m_ptr s val = Some Nullptr \<longrightarrow>
      (\<exists>s2 s3. customDeleteBucket_statements dbg val s = Inr s2 \<and>
         m_ptr s2 val = Some DeletedValue \<and> heap s2 = heap s \<and> log s2 = log s \<and>
         customDeleteBucket dbg val s = Inr s3 \<and>
         m_ptr s3 = (m_ptr s)(val \<mapsto> DeletedValue) \<and> heap s3 = heap s \<and> log s3 = log s)) \<and>
   (m_ptr s val = Some (Addr a) \<and> heap s a = Some c \<longrightarrow>
      (\<exists>s2 s3. customDeleteBucket_statements dbg val s = Inr s2 \<and>
         m_ptr s2 val = Some DeletedValue \<and> heap s2 = heap s \<and> log s2 = log s \<and>
         customDeleteBucket dbg val s = Inr s3 \<and>
         m_ptr s3 = (m_ptr s)(val \<mapsto> DeletedValue) \<and>
         heap s3 = (heap s)(a \<mapsto> c - 1) \<and> log s3 = log s @ [Decremented a (c - 1)]))"
proof -
  have 1: "\<exists>s'. CheckedPtr_HashTableDeletedValue this s = s' \<and>
         m_ptr s' this = Some DeletedValue \<and> heap s' = heap s \<and> log s' = log s \<and>
         isHashTableDeletedValue this s' = Inr (True, s') \<and>
         operator_eq_raw this Nullptr s' = Inr (False, s') \<and>
         operator_eq_raw this (Addr a) s' = Inr (False, s')"
    by (simp add: CheckedPtr_HashTableDeletedValue_def isHashTableDeletedValue_def
        PtrTraits_isHashTableDeletedValue_def PtrTraits_hashTableDeletedValue_def
        operator_eq_raw_def)
  have 2: "m_ptr s val = Some Nullptr \<or> m_ptr s val = Some (Addr a)
      \<longrightarrow> isHashTableDeletedValue val s = Inr (False, s)"
    by (auto simp: isHashTableDeletedValue_def
        PtrTraits_isHashTableDeletedValue_def PtrTraits_hashTableDeletedValue_def)
  have 3: "emptyValue = Nullptr" by (simp add: emptyValue_def)
  have 4: "m_ptr s val = Some Nullptr \<longrightarrow>
      (\<exists>s2 s3. customDeleteBucket_statements dbg val s = Inr s2 \<and>
         m_ptr s2 val = Some DeletedValue \<and> heap s2 = heap s \<and> log s2 = log s \<and>
         customDeleteBucket dbg val s = Inr s3 \<and>
         m_ptr s3 = (m_ptr s)(val \<mapsto> DeletedValue) \<and> heap s3 = heap s \<and> log s3 = log s)"
    by (auto simp: customDeleteBucket_statements_eq customDeleteBucket_eq deref_value_def
        PtrTraits_unwrap_def m_ptr_def update_conv')
  have 5: "m_ptr s val = Some (Addr a) \<and> heap s a = Some c \<longrightarrow>
      (\<exists>s2 s3. customDeleteBucket_statements dbg val s = Inr s2 \<and>
         m_ptr s2 val = Some DeletedValue \<and> heap s2 = heap s \<and> log s2 = log s \<and>
         customDeleteBucket dbg val s = Inr s3 \<and>
         m_ptr s3 = (m_ptr s)(val \<mapsto> DeletedValue) \<and>
         heap s3 = (heap s)(a \<mapsto> c - 1) \<and> log s3 = log s @ [Decremented a (c - 1)])"
    by (auto simp: customDeleteBucket_statements_eq customDeleteBucket_eq deref_value_def
        PtrTraits_unwrap_def decrementPtrCount_def m_ptr_def update_conv')
  from 1 2 3 4 5 show ?thesis by blast
qed

theorem hash_table_values_witness:
  "m_ptr \<lparr>ptrs = [(0, Addr 7), (1, Nullptr)], refs = [], heap = [7 \<mapsto> 1], log = []\<rparr> 0 = Some (Addr 7) \<and>
   heap \<lparr>ptrs = [(0, Addr 7), (1, Nullptr)], refs = [], heap = [7 \<mapsto> 1], log = []\<rparr> 7 = Some 1 \<and>
   customDeleteBucket True 0
     \<lparr>ptrs = [(0, Addr 7), (1, Nullptr)], refs = [], heap = [7 \<mapsto> 1], log = []\<rparr>
     = Inr \<lparr>ptrs = [(0, DeletedValue), (1, Nullptr)], refs = [], heap = [7 \<mapsto> 0],
            log = [Decremented 7 0]\<rparr> \<and>
   m_ptr \<lparr>ptrs = [(0, Addr 7), (1, Nullptr)], refs = [], heap = [7 \<mapsto> 1], log = []\<rparr> 1 = Some Nullptr \<and>
   customDeleteBucket True 1
     \<lparr>ptrs = [(0, Addr 7), (1, Nullptr)], refs = [], heap = [7 \<mapsto> 1], log = []\<rparr>
     = Inr \<lparr>ptrs = [(0, Addr 7), (1, DeletedValue)], refs = [], heap = [7 \<mapsto> 1], log = []\<rparr> \<and>
   isHashTableDeletedValue 1
     \<lparr>ptrs = [(0, Addr 7), (1, Nullptr)], refs = [], heap = [7 \<mapsto> 1], log = []\<rparr>
     = Inr (False, \<lparr>ptrs = [(0, Addr 7), (1, Nullptr)], refs = [], heap = [7 \<mapsto> 1], log = []\<rparr>)"
  using hash_table_values
          [of 2 "\<lparr>ptrs = [(0, Addr 7), (1, Nullptr)], refs = [], heap = [7 \<mapsto> 1], log = []\<rparr>"
              7 0 True 1]
        hash_table_values
          [of 2 "\<lparr>ptrs = [(0, Addr 7), (1, Nullptr)], refs = [], heap = [7 \<mapsto> 1], log = []\<rparr>"
              7 1 True 1]
  by (simp add: evals)

text \<open>
  When the statements of \<open>customDeleteBucket\<close> have run, the bucket holds the deleted
  value and the count is still 1, with no decrement recorded; the decrement comes with
  the destruction of the local.
\<close>

theorem bucket_overwritten_before_decrement:
  "customDeleteBucket_statements True 0
     \<lparr>ptrs = [(0, Addr 7)], refs = [], heap = [7 \<mapsto> 1], log = []\<rparr>
     = Inr \<lparr>ptrs = [(0, DeletedValue), (1, Addr 7)], refs = [], heap = [7 \<mapsto> 1], log = []\<rparr> \<and>
   customDeleteBucket True 0
     \<lparr>ptrs = [(0, Addr 7)], refs = [], heap = [7 \<mapsto> 1], log = []\<rparr>
     = Inr \<lparr>ptrs = [(0, DeletedValue)], refs = [], heap = [7 \<mapsto> 0], log = [Decremented 7 0]\<rparr>"
  by (simp add: evals)

end
